theory Spec2Isabelle
  imports Main "HOL-Library.Monad_Syntax" "HOL-Library.Multiset"
begin

section \<open>Python strings\<close>

text \<open>
  A Python \<open>str\<close> is modelled as a \<open>string\<close>: a list of characters, each a code point
  below 256 (the Latin-1 range). Code points above 255 are outside the model. The character
  predicates below are those of CPython on that range.
\<close>

definition code_point :: "char \<Rightarrow> nat" where
  "code_point c = of_char c"

definition isspace :: "char \<Rightarrow> bool" where
  \<comment> \<open>\<open>str.isspace\<close>, the class \<open>\s\<close> of \<open>re\<close>, and what \<open>str.strip()\<close> removes\<close>
  "isspace c = (let n = code_point c in
     (9 \<le> n \<and> n \<le> 13) \<or> (28 \<le> n \<and> n \<le> 32) \<or> n = 133 \<or> n = 160)"

definition isdecimal :: "char \<Rightarrow> bool" where
  \<comment> \<open>the class \<open>\d\<close> of \<open>re\<close>\<close>
  "isdecimal c = (let n = code_point c in 48 \<le> n \<and> n \<le> 57)"

definition isword :: "char \<Rightarrow> bool" where
  \<comment> \<open>the class \<open>\w\<close> of \<open>re\<close>: alphanumeric or underscore\<close>
  "isword c = (let n = code_point c in
     (48 \<le> n \<and> n \<le> 57) \<or> (65 \<le> n \<and> n \<le> 90) \<or> n = 95 \<or> (97 \<le> n \<and> n \<le> 122) \<or>
     n = 170 \<or> n = 178 \<or> n = 179 \<or> n = 181 \<or> n = 185 \<or> n = 186 \<or>
     (188 \<le> n \<and> n \<le> 190) \<or> (192 \<le> n \<and> n \<le> 214) \<or> (216 \<le> n \<and> n \<le> 246) \<or>
     (248 \<le> n \<and> n \<le> 255))"

definition lower_char :: "char \<Rightarrow> char" where
  "lower_char c = (let n = code_point c in
     if (65 \<le> n \<and> n \<le> 90) \<or> (192 \<le> n \<and> n \<le> 214) \<or> (216 \<le> n \<and> n \<le> 222)
     then char_of (n + 32) else c)"

definition lower :: "string \<Rightarrow> string" where
  \<comment> \<open>\<open>s.lower()\<close>\<close>
  "lower s = map lower_char s"

definition strip :: "string \<Rightarrow> string" where
  \<comment> \<open>\<open>s.strip()\<close>\<close>
  "strip s = rev (dropWhile isspace (rev (dropWhile isspace s)))"

definition rstrip_char :: "char \<Rightarrow> string \<Rightarrow> string" where
  \<comment> \<open>\<open>s.rstrip(c)\<close> for a one-character argument\<close>
  "rstrip_char c s = rev (dropWhile (\<lambda>x. x = c) (rev s))"

fun startswith :: "string \<Rightarrow> string \<Rightarrow> bool" where
  "startswith s [] = True"
| "startswith [] (p # ps) = False"
| "startswith (c # cs) (p # ps) = (c = p \<and> startswith cs ps)"

definition endswith :: "string \<Rightarrow> string \<Rightarrow> bool" where
  "endswith s p = startswith (rev s) (rev p)"

fun contains :: "string \<Rightarrow> string \<Rightarrow> bool" where
  \<comment> \<open>\<open>sub in s\<close>, written \<open>contains s sub\<close>\<close>
  "contains [] sub = (sub = [])"
| "contains (c # cs) sub = (startswith (c # cs) sub \<or> contains cs sub)"

fun split_char :: "char \<Rightarrow> string \<Rightarrow> string list" where
  \<comment> \<open>\<open>s.split(d)\<close> for a one-character separator: never the empty list\<close>
  "split_char d [] = [[]]"
| "split_char d (c # cs) =
     (case split_char d cs of
        [] \<Rightarrow> [[c]]
      | x # xs \<Rightarrow> if c = d then [] # x # xs else (c # x) # xs)"

fun join :: "string \<Rightarrow> string list \<Rightarrow> string" where
  \<comment> \<open>\<open>sep.join(parts)\<close>\<close>
  "join sep [] = []"
| "join sep [p] = p"
| "join sep (p # q # ps) = p @ sep @ join sep (q # ps)"

definition slice_to :: "int \<Rightarrow> 'a list \<Rightarrow> 'a list" where
  \<comment> \<open>\<open>xs[:n]\<close>: a negative bound counts from the end\<close>
  "slice_to n xs = (if 0 \<le> n then take (nat n) xs else take (length xs - nat (- n)) xs)"


subsection \<open>The character functions on ASCII\<close>

text \<open>The values on the printable ASCII characters and the ASCII white space, as rewrite rules.\<close>

lemma lower_char_ascii:
  "lower_char (CHR 0x09) = CHR 0x09"
  "lower_char (CHR 0x0A) = CHR 0x0A"
  "lower_char (CHR 0x0B) = CHR 0x0B"
  "lower_char (CHR 0x0C) = CHR 0x0C"
  "lower_char (CHR 0x0D) = CHR 0x0D"
  "lower_char (CHR 0x20) = CHR 0x20"
  "lower_char (CHR 0x21) = CHR 0x21"
  "lower_char (CHR 0x22) = CHR 0x22"
  "lower_char (CHR 0x23) = CHR 0x23"
  "lower_char (CHR 0x24) = CHR 0x24"
  "lower_char (CHR 0x25) = CHR 0x25"
  "lower_char (CHR 0x26) = CHR 0x26"
  "lower_char (CHR 0x27) = CHR 0x27"
  "lower_char (CHR 0x28) = CHR 0x28"
  "lower_char (CHR 0x29) = CHR 0x29"
  "lower_char (CHR 0x2A) = CHR 0x2A"
  "lower_char (CHR 0x2B) = CHR 0x2B"
  "lower_char (CHR 0x2C) = CHR 0x2C"
  "lower_char (CHR 0x2D) = CHR 0x2D"
  "lower_char (CHR 0x2E) = CHR 0x2E"
  "lower_char (CHR 0x2F) = CHR 0x2F"
  "lower_char (CHR 0x30) = CHR 0x30"
  "lower_char (CHR 0x31) = CHR 0x31"
  "lower_char (CHR 0x32) = CHR 0x32"
  "lower_char (CHR 0x33) = CHR 0x33"
  "lower_char (CHR 0x34) = CHR 0x34"
  "lower_char (CHR 0x35) = CHR 0x35"
  "lower_char (CHR 0x36) = CHR 0x36"
  "lower_char (CHR 0x37) = CHR 0x37"
  "lower_char (CHR 0x38) = CHR 0x38"
  "lower_char (CHR 0x39) = CHR 0x39"
  "lower_char (CHR 0x3A) = CHR 0x3A"
  "lower_char (CHR 0x3B) = CHR 0x3B"
  "lower_char (CHR 0x3C) = CHR 0x3C"
  "lower_char (CHR 0x3D) = CHR 0x3D"
  "lower_char (CHR 0x3E) = CHR 0x3E"
  "lower_char (CHR 0x3F) = CHR 0x3F"
  "lower_char (CHR 0x40) = CHR 0x40"
  "lower_char (CHR 0x41) = CHR 0x61"
  "lower_char (CHR 0x42) = CHR 0x62"
  "lower_char (CHR 0x43) = CHR 0x63"
  "lower_char (CHR 0x44) = CHR 0x64"
  "lower_char (CHR 0x45) = CHR 0x65"
  "lower_char (CHR 0x46) = CHR 0x66"
  "lower_char (CHR 0x47) = CHR 0x67"
  "lower_char (CHR 0x48) = CHR 0x68"
  "lower_char (CHR 0x49) = CHR 0x69"
  "lower_char (CHR 0x4A) = CHR 0x6A"
  "lower_char (CHR 0x4B) = CHR 0x6B"
  "lower_char (CHR 0x4C) = CHR 0x6C"
  "lower_char (CHR 0x4D) = CHR 0x6D"
  "lower_char (CHR 0x4E) = CHR 0x6E"
  "lower_char (CHR 0x4F) = CHR 0x6F"
  "lower_char (CHR 0x50) = CHR 0x70"
  "lower_char (CHR 0x51) = CHR 0x71"
  "lower_char (CHR 0x52) = CHR 0x72"
  "lower_char (CHR 0x53) = CHR 0x73"
  "lower_char (CHR 0x54) = CHR 0x74"
  "lower_char (CHR 0x55) = CHR 0x75"
  "lower_char (CHR 0x56) = CHR 0x76"
  "lower_char (CHR 0x57) = CHR 0x77"
  "lower_char (CHR 0x58) = CHR 0x78"
  "lower_char (CHR 0x59) = CHR 0x79"
  "lower_char (CHR 0x5A) = CHR 0x7A"
  "lower_char (CHR 0x5B) = CHR 0x5B"
  "lower_char (CHR 0x5C) = CHR 0x5C"
  "lower_char (CHR 0x5D) = CHR 0x5D"
  "lower_char (CHR 0x5E) = CHR 0x5E"
  "lower_char (CHR 0x5F) = CHR 0x5F"
  "lower_char (CHR 0x60) = CHR 0x60"
  "lower_char (CHR 0x61) = CHR 0x61"
  "lower_char (CHR 0x62) = CHR 0x62"
  "lower_char (CHR 0x63) = CHR 0x63"
  "lower_char (CHR 0x64) = CHR 0x64"
  "lower_char (CHR 0x65) = CHR 0x65"
  "lower_char (CHR 0x66) = CHR 0x66"
  "lower_char (CHR 0x67) = CHR 0x67"
  "lower_char (CHR 0x68) = CHR 0x68"
  "lower_char (CHR 0x69) = CHR 0x69"
  "lower_char (CHR 0x6A) = CHR 0x6A"
  "lower_char (CHR 0x6B) = CHR 0x6B"
  "lower_char (CHR 0x6C) = CHR 0x6C"
  "lower_char (CHR 0x6D) = CHR 0x6D"
  "lower_char (CHR 0x6E) = CHR 0x6E"
  "lower_char (CHR 0x6F) = CHR 0x6F"
  "lower_char (CHR 0x70) = CHR 0x70"
  "lower_char (CHR 0x71) = CHR 0x71"
  "lower_char (CHR 0x72) = CHR 0x72"
  "lower_char (CHR 0x73) = CHR 0x73"
  "lower_char (CHR 0x74) = CHR 0x74"
  "lower_char (CHR 0x75) = CHR 0x75"
  "lower_char (CHR 0x76) = CHR 0x76"
  "lower_char (CHR 0x77) = CHR 0x77"
  "lower_char (CHR 0x78) = CHR 0x78"
  "lower_char (CHR 0x79) = CHR 0x79"
  "lower_char (CHR 0x7A) = CHR 0x7A"
  "lower_char (CHR 0x7B) = CHR 0x7B"
  "lower_char (CHR 0x7C) = CHR 0x7C"
  "lower_char (CHR 0x7D) = CHR 0x7D"
  "lower_char (CHR 0x7E) = CHR 0x7E"
  by (simp_all add: lower_char_def code_point_def char_of_def bit_Suc_0_iff)

lemma isdecimal_ascii:
  "isdecimal (CHR 0x09) = False"
  "isdecimal (CHR 0x0A) = False"
  "isdecimal (CHR 0x0B) = False"
  "isdecimal (CHR 0x0C) = False"
  "isdecimal (CHR 0x0D) = False"
  "isdecimal (CHR 0x20) = False"
  "isdecimal (CHR 0x21) = False"
  "isdecimal (CHR 0x22) = False"
  "isdecimal (CHR 0x23) = False"
  "isdecimal (CHR 0x24) = False"
  "isdecimal (CHR 0x25) = False"
  "isdecimal (CHR 0x26) = False"
  "isdecimal (CHR 0x27) = False"
  "isdecimal (CHR 0x28) = False"
  "isdecimal (CHR 0x29) = False"
  "isdecimal (CHR 0x2A) = False"
  "isdecimal (CHR 0x2B) = False"
  "isdecimal (CHR 0x2C) = False"
  "isdecimal (CHR 0x2D) = False"
  "isdecimal (CHR 0x2E) = False"
  "isdecimal (CHR 0x2F) = False"
  "isdecimal (CHR 0x30) = True"
  "isdecimal (CHR 0x31) = True"
  "isdecimal (CHR 0x32) = True"
  "isdecimal (CHR 0x33) = True"
  "isdecimal (CHR 0x34) = True"
  "isdecimal (CHR 0x35) = True"
  "isdecimal (CHR 0x36) = True"
  "isdecimal (CHR 0x37) = True"
  "isdecimal (CHR 0x38) = True"
  "isdecimal (CHR 0x39) = True"
  "isdecimal (CHR 0x3A) = False"
  "isdecimal (CHR 0x3B) = False"
  "isdecimal (CHR 0x3C) = False"
  "isdecimal (CHR 0x3D) = False"
  "isdecimal (CHR 0x3E) = False"
  "isdecimal (CHR 0x3F) = False"
  "isdecimal (CHR 0x40) = False"
  "isdecimal (CHR 0x41) = False"
  "isdecimal (CHR 0x42) = False"
  "isdecimal (CHR 0x43) = False"
  "isdecimal (CHR 0x44) = False"
  "isdecimal (CHR 0x45) = False"
  "isdecimal (CHR 0x46) = False"
  "isdecimal (CHR 0x47) = False"
  "isdecimal (CHR 0x48) = False"
  "isdecimal (CHR 0x49) = False"
  "isdecimal (CHR 0x4A) = False"
  "isdecimal (CHR 0x4B) = False"
  "isdecimal (CHR 0x4C) = False"
  "isdecimal (CHR 0x4D) = False"
  "isdecimal (CHR 0x4E) = False"
  "isdecimal (CHR 0x4F) = False"
  "isdecimal (CHR 0x50) = False"
  "isdecimal (CHR 0x51) = False"
  "isdecimal (CHR 0x52) = False"
  "isdecimal (CHR 0x53) = False"
  "isdecimal (CHR 0x54) = False"
  "isdecimal (CHR 0x55) = False"
  "isdecimal (CHR 0x56) = False"
  "isdecimal (CHR 0x57) = False"
  "isdecimal (CHR 0x58) = False"
  "isdecimal (CHR 0x59) = False"
  "isdecimal (CHR 0x5A) = False"
  "isdecimal (CHR 0x5B) = False"
  "isdecimal (CHR 0x5C) = False"
  "isdecimal (CHR 0x5D) = False"
  "isdecimal (CHR 0x5E) = False"
  "isdecimal (CHR 0x5F) = False"
  "isdecimal (CHR 0x60) = False"
  "isdecimal (CHR 0x61) = False"
  "isdecimal (CHR 0x62) = False"
  "isdecimal (CHR 0x63) = False"
  "isdecimal (CHR 0x64) = False"
  "isdecimal (CHR 0x65) = False"
  "isdecimal (CHR 0x66) = False"
  "isdecimal (CHR 0x67) = False"
  "isdecimal (CHR 0x68) = False"
  "isdecimal (CHR 0x69) = False"
  "isdecimal (CHR 0x6A) = False"
  "isdecimal (CHR 0x6B) = False"
  "isdecimal (CHR 0x6C) = False"
  "isdecimal (CHR 0x6D) = False"
  "isdecimal (CHR 0x6E) = False"
  "isdecimal (CHR 0x6F) = False"
  "isdecimal (CHR 0x70) = False"
  "isdecimal (CHR 0x71) = False"
  "isdecimal (CHR 0x72) = False"
  "isdecimal (CHR 0x73) = False"
  "isdecimal (CHR 0x74) = False"
  "isdecimal (CHR 0x75) = False"
  "isdecimal (CHR 0x76) = False"
  "isdecimal (CHR 0x77) = False"
  "isdecimal (CHR 0x78) = False"
  "isdecimal (CHR 0x79) = False"
  "isdecimal (CHR 0x7A) = False"
  "isdecimal (CHR 0x7B) = False"
  "isdecimal (CHR 0x7C) = False"
  "isdecimal (CHR 0x7D) = False"
  "isdecimal (CHR 0x7E) = False"
  by (simp_all add: isdecimal_def code_point_def)

lemma isword_ascii:
  "isword (CHR 0x09) = False"
  "isword (CHR 0x0A) = False"
  "isword (CHR 0x0B) = False"
  "isword (CHR 0x0C) = False"
  "isword (CHR 0x0D) = False"
  "isword (CHR 0x20) = False"
  "isword (CHR 0x21) = False"
  "isword (CHR 0x22) = False"
  "isword (CHR 0x23) = False"
  "isword (CHR 0x24) = False"
  "isword (CHR 0x25) = False"
  "isword (CHR 0x26) = False"
  "isword (CHR 0x27) = False"
  "isword (CHR 0x28) = False"
  "isword (CHR 0x29) = False"
  "isword (CHR 0x2A) = False"
  "isword (CHR 0x2B) = False"
  "isword (CHR 0x2C) = False"
  "isword (CHR 0x2D) = False"
  "isword (CHR 0x2E) = False"
  "isword (CHR 0x2F) = False"
  "isword (CHR 0x30) = True"
  "isword (CHR 0x31) = True"
  "isword (CHR 0x32) = True"
  "isword (CHR 0x33) = True"
  "isword (CHR 0x34) = True"
  "isword (CHR 0x35) = True"
  "isword (CHR 0x36) = True"
  "isword (CHR 0x37) = True"
  "isword (CHR 0x38) = True"
  "isword (CHR 0x39) = True"
  "isword (CHR 0x3A) = False"
  "isword (CHR 0x3B) = False"
  "isword (CHR 0x3C) = False"
  "isword (CHR 0x3D) = False"
  "isword (CHR 0x3E) = False"
  "isword (CHR 0x3F) = False"
  "isword (CHR 0x40) = False"
  "isword (CHR 0x41) = True"
  "isword (CHR 0x42) = True"
  "isword (CHR 0x43) = True"
  "isword (CHR 0x44) = True"
  "isword (CHR 0x45) = True"
  "isword (CHR 0x46) = True"
  "isword (CHR 0x47) = True"
  "isword (CHR 0x48) = True"
  "isword (CHR 0x49) = True"
  "isword (CHR 0x4A) = True"
  "isword (CHR 0x4B) = True"
  "isword (CHR 0x4C) = True"
  "isword (CHR 0x4D) = True"
  "isword (CHR 0x4E) = True"
  "isword (CHR 0x4F) = True"
  "isword (CHR 0x50) = True"
  "isword (CHR 0x51) = True"
  "isword (CHR 0x52) = True"
  "isword (CHR 0x53) = True"
  "isword (CHR 0x54) = True"
  "isword (CHR 0x55) = True"
  "isword (CHR 0x56) = True"
  "isword (CHR 0x57) = True"
  "isword (CHR 0x58) = True"
  "isword (CHR 0x59) = True"
  "isword (CHR 0x5A) = True"
  "isword (CHR 0x5B) = False"
  "isword (CHR 0x5C) = False"
  "isword (CHR 0x5D) = False"
  "isword (CHR 0x5E) = False"
  "isword (CHR 0x5F) = True"
  "isword (CHR 0x60) = False"
  "isword (CHR 0x61) = True"
  "isword (CHR 0x62) = True"
  "isword (CHR 0x63) = True"
  "isword (CHR 0x64) = True"
  "isword (CHR 0x65) = True"
  "isword (CHR 0x66) = True"
  "isword (CHR 0x67) = True"
  "isword (CHR 0x68) = True"
  "isword (CHR 0x69) = True"
  "isword (CHR 0x6A) = True"
  "isword (CHR 0x6B) = True"
  "isword (CHR 0x6C) = True"
  "isword (CHR 0x6D) = True"
  "isword (CHR 0x6E) = True"
  "isword (CHR 0x6F) = True"
  "isword (CHR 0x70) = True"
  "isword (CHR 0x71) = True"
  "isword (CHR 0x72) = True"
  "isword (CHR 0x73) = True"
  "isword (CHR 0x74) = True"
  "isword (CHR 0x75) = True"
  "isword (CHR 0x76) = True"
  "isword (CHR 0x77) = True"
  "isword (CHR 0x78) = True"
  "isword (CHR 0x79) = True"
  "isword (CHR 0x7A) = True"
  "isword (CHR 0x7B) = False"
  "isword (CHR 0x7C) = False"
  "isword (CHR 0x7D) = False"
  "isword (CHR 0x7E) = False"
  by (simp_all add: isword_def code_point_def)

lemma isspace_ascii:
  "isspace (CHR 0x09) = True"
  "isspace (CHR 0x0A) = True"
  "isspace (CHR 0x0B) = True"
  "isspace (CHR 0x0C) = True"
  "isspace (CHR 0x0D) = True"
  "isspace (CHR 0x20) = True"
  "isspace (CHR 0x21) = False"
  "isspace (CHR 0x22) = False"
  "isspace (CHR 0x23) = False"
  "isspace (CHR 0x24) = False"
  "isspace (CHR 0x25) = False"
  "isspace (CHR 0x26) = False"
  "isspace (CHR 0x27) = False"
  "isspace (CHR 0x28) = False"
  "isspace (CHR 0x29) = False"
  "isspace (CHR 0x2A) = False"
  "isspace (CHR 0x2B) = False"
  "isspace (CHR 0x2C) = False"
  "isspace (CHR 0x2D) = False"
  "isspace (CHR 0x2E) = False"
  "isspace (CHR 0x2F) = False"
  "isspace (CHR 0x30) = False"
  "isspace (CHR 0x31) = False"
  "isspace (CHR 0x32) = False"
  "isspace (CHR 0x33) = False"
  "isspace (CHR 0x34) = False"
  "isspace (CHR 0x35) = False"
  "isspace (CHR 0x36) = False"
  "isspace (CHR 0x37) = False"
  "isspace (CHR 0x38) = False"
  "isspace (CHR 0x39) = False"
  "isspace (CHR 0x3A) = False"
  "isspace (CHR 0x3B) = False"
  "isspace (CHR 0x3C) = False"
  "isspace (CHR 0x3D) = False"
  "isspace (CHR 0x3E) = False"
  "isspace (CHR 0x3F) = False"
  "isspace (CHR 0x40) = False"
  "isspace (CHR 0x41) = False"
  "isspace (CHR 0x42) = False"
  "isspace (CHR 0x43) = False"
  "isspace (CHR 0x44) = False"
  "isspace (CHR 0x45) = False"
  "isspace (CHR 0x46) = False"
  "isspace (CHR 0x47) = False"
  "isspace (CHR 0x48) = False"
  "isspace (CHR 0x49) = False"
  "isspace (CHR 0x4A) = False"
  "isspace (CHR 0x4B) = False"
  "isspace (CHR 0x4C) = False"
  "isspace (CHR 0x4D) = False"
  "isspace (CHR 0x4E) = False"
  "isspace (CHR 0x4F) = False"
  "isspace (CHR 0x50) = False"
  "isspace (CHR 0x51) = False"
  "isspace (CHR 0x52) = False"
  "isspace (CHR 0x53) = False"
  "isspace (CHR 0x54) = False"
  "isspace (CHR 0x55) = False"
  "isspace (CHR 0x56) = False"
  "isspace (CHR 0x57) = False"
  "isspace (CHR 0x58) = False"
  "isspace (CHR 0x59) = False"
  "isspace (CHR 0x5A) = False"
  "isspace (CHR 0x5B) = False"
  "isspace (CHR 0x5C) = False"
  "isspace (CHR 0x5D) = False"
  "isspace (CHR 0x5E) = False"
  "isspace (CHR 0x5F) = False"
  "isspace (CHR 0x60) = False"
  "isspace (CHR 0x61) = False"
  "isspace (CHR 0x62) = False"
  "isspace (CHR 0x63) = False"
  "isspace (CHR 0x64) = False"
  "isspace (CHR 0x65) = False"
  "isspace (CHR 0x66) = False"
  "isspace (CHR 0x67) = False"
  "isspace (CHR 0x68) = False"
  "isspace (CHR 0x69) = False"
  "isspace (CHR 0x6A) = False"
  "isspace (CHR 0x6B) = False"
  "isspace (CHR 0x6C) = False"
  "isspace (CHR 0x6D) = False"
  "isspace (CHR 0x6E) = False"
  "isspace (CHR 0x6F) = False"
  "isspace (CHR 0x70) = False"
  "isspace (CHR 0x71) = False"
  "isspace (CHR 0x72) = False"
  "isspace (CHR 0x73) = False"
  "isspace (CHR 0x74) = False"
  "isspace (CHR 0x75) = False"
  "isspace (CHR 0x76) = False"
  "isspace (CHR 0x77) = False"
  "isspace (CHR 0x78) = False"
  "isspace (CHR 0x79) = False"
  "isspace (CHR 0x7A) = False"
  "isspace (CHR 0x7B) = False"
  "isspace (CHR 0x7C) = False"
  "isspace (CHR 0x7D) = False"
  "isspace (CHR 0x7E) = False"
  by (simp_all add: isspace_def code_point_def)


section \<open>Python sets\<close>

text \<open>
  A \<open>set\<close> of the program is kept as the list of its elements in the order they were
  added, each once. \<open>len\<close> is \<open>length\<close> and \<open>x in s\<close> is \<open>x \<in> set s\<close>. The order in which
  Python iterates a set is not fixed by the program: \<open>list(s)\<close> is \<open>list_of_set pick s\<close>,
  where the environment's \<open>pick\<close> chooses which of the remaining elements comes next, so
  that every order can occur.
\<close>

definition set_add :: "'a \<Rightarrow> 'a list \<Rightarrow> 'a list" where
  "set_add x s = (if x \<in> set s then s else s @ [x])"

definition remove_nth :: "nat \<Rightarrow> 'a list \<Rightarrow> 'a list" where
  "remove_nth i xs = take i xs @ drop (Suc i) xs"

fun iterate_set :: "('a list \<Rightarrow> nat) \<Rightarrow> nat \<Rightarrow> 'a list \<Rightarrow> 'a list" where
  "iterate_set pick 0 xs = []"
| "iterate_set pick (Suc n) xs =
     (if xs = [] then []
      else let i = pick xs mod length xs in xs ! i # iterate_set pick n (remove_nth i xs))"

definition list_of_set :: "('a list \<Rightarrow> nat) \<Rightarrow> 'a list \<Rightarrow> 'a list" where
  "list_of_set pick xs = iterate_set pick (length xs) xs"


section \<open>Regular expressions\<close>

text \<open>
  The patterns of the program are built from single-character classes, sequence,
  alternation, greedy and lazy repetition, with \<open>^\<close> only at the start and \<open>$\<close> only at
  the end of a pattern. \<open>rx_ends\<close> lists, in the order Python's backtracking matcher tries
  them, the remainders of the subject after each way of matching at its start. No repeated
  sub-pattern of the program matches the empty string, so the number of rounds of a
  repetition is bounded by the length of the subject.
\<close>

datatype atom = Lit char | Digit | Word | Space | NotSpace

datatype rx =
    One atom
  | Dot
  | OneOf "atom list"
  | NoneOf "atom list"
  | Eps
  | Seq rx rx
  | Alt rx rx
  | Star rx
  | LazyStar rx

record re_flags =
  IGNORECASE :: bool
  MULTILINE :: bool
  DOTALL :: bool

definition no_flags :: re_flags where
  "no_flags = \<lparr>IGNORECASE = False, MULTILINE = False, DOTALL = False\<rparr>"

definition re_I :: re_flags where
  "re_I = \<lparr>IGNORECASE = True, MULTILINE = False, DOTALL = False\<rparr>"

definition re_S :: re_flags where
  "re_S = \<lparr>IGNORECASE = False, MULTILINE = False, DOTALL = True\<rparr>"

definition re_IM :: re_flags where
  "re_IM = \<lparr>IGNORECASE = True, MULTILINE = True, DOTALL = False\<rparr>"

definition re_IS :: re_flags where
  "re_IS = \<lparr>IGNORECASE = True, MULTILINE = False, DOTALL = True\<rparr>"

record pattern =
  bol :: bool  \<comment> \<open>the pattern starts with \<open>^\<close>\<close>
  body :: rx
  eol :: bool  \<comment> \<open>the pattern ends with \<open>$\<close>\<close>

definition newline :: char where
  "newline = CHR 0x0A"

fun atom_match :: "re_flags \<Rightarrow> atom \<Rightarrow> char \<Rightarrow> bool" where
  "atom_match f (Lit a) c = (if IGNORECASE f then lower_char a = lower_char c else a = c)"
| "atom_match f Digit c = isdecimal c"
| "atom_match f Word c = isword c"
| "atom_match f Space c = isspace c"
| "atom_match f NotSpace c = (\<not> isspace c)"

fun one_char :: "(char \<Rightarrow> bool) \<Rightarrow> string \<Rightarrow> string list" where
  "one_char P [] = []"
| "one_char P (c # cs) = (if P c then [cs] else [])"

primrec star_greedy :: "(string \<Rightarrow> string list) \<Rightarrow> nat \<Rightarrow> string \<Rightarrow> string list" where
  "star_greedy step 0 s = [s]"
| "star_greedy step (Suc n) s = concat (map (star_greedy step n) (step s)) @ [s]"

primrec star_lazy :: "(string \<Rightarrow> string list) \<Rightarrow> nat \<Rightarrow> string \<Rightarrow> string list" where
  "star_lazy step 0 s = [s]"
| "star_lazy step (Suc n) s = s # concat (map (star_lazy step n) (step s))"

primrec rx_ends :: "re_flags \<Rightarrow> rx \<Rightarrow> string \<Rightarrow> string list" where
  "rx_ends f (One a) s = one_char (atom_match f a) s"
| "rx_ends f Dot s = one_char (\<lambda>c. DOTALL f \<or> c \<noteq> newline) s"
| "rx_ends f (OneOf as) s = one_char (\<lambda>c. \<exists>a \<in> set as. atom_match f a c) s"
| "rx_ends f (NoneOf as) s = one_char (\<lambda>c. \<not> (\<exists>a \<in> set as. atom_match f a c)) s"
| "rx_ends f Eps s = [s]"
| "rx_ends f (Seq r1 r2) s = concat (map (rx_ends f r2) (rx_ends f r1 s))"
| "rx_ends f (Alt r1 r2) s = rx_ends f r1 s @ rx_ends f r2 s"
| "rx_ends f (Star r) s = star_greedy (rx_ends f r) (length s) s"
| "rx_ends f (LazyStar r) s = star_lazy (rx_ends f r) (length s) s"

definition at_bol :: "re_flags \<Rightarrow> char option \<Rightarrow> bool" where
  \<comment> \<open>\<open>^\<close> matches here, \<open>prev\<close> being the character before (none at the start)\<close>
  "at_bol f prev = (case prev of None \<Rightarrow> True | Some c \<Rightarrow> MULTILINE f \<and> c = newline)"

definition at_eol :: "re_flags \<Rightarrow> string \<Rightarrow> bool" where
  \<comment> \<open>\<open>$\<close> matches before the remainder \<open>s\<close>\<close>
  "at_eol f s = (s = [] \<or> s = [newline] \<or> (MULTILINE f \<and> hd s = newline))"

definition match_at :: "re_flags \<Rightarrow> pattern \<Rightarrow> char option \<Rightarrow> string \<Rightarrow> string option" where
  \<comment> \<open>the remainder after the match Python finds at this position, if there is one\<close>
  "match_at f p prev s =
     (if bol p \<and> \<not> at_bol f prev then None
      else case filter (\<lambda>r. if eol p then at_eol f r else True) (rx_ends f (body p) s) of
             [] \<Rightarrow> None
           | r # _ \<Rightarrow> Some r)"

fun search_from :: "re_flags \<Rightarrow> pattern \<Rightarrow> char option \<Rightarrow> string \<Rightarrow> bool" where
  "search_from f p prev [] = (match_at f p prev [] \<noteq> None)"
| "search_from f p prev (c # cs) =
     (match_at f p prev (c # cs) \<noteq> None \<or> search_from f p (Some c) cs)"

definition re_search :: "pattern \<Rightarrow> string \<Rightarrow> re_flags \<Rightarrow> bool" where
  \<comment> \<open>\<open>re.search(pattern, s, flags)\<close> as a truth value\<close>
  "re_search p s f = search_from f p None s"

subsection \<open>Building patterns\<close>

definition lit :: "string \<Rightarrow> rx" where
  \<comment> \<open>a run of literal characters\<close>
  "lit s = foldr (\<lambda>c r. Seq (One (Lit c)) r) s Eps"

definition plus :: "rx \<Rightarrow> rx" where
  \<comment> \<open>\<open>r+\<close>\<close>
  "plus r = Seq r (Star r)"

definition opt :: "rx \<Rightarrow> rx" where
  \<comment> \<open>\<open>r?\<close>\<close>
  "opt r = Alt r Eps"

primrec times :: "nat \<Rightarrow> rx \<Rightarrow> rx" where
  \<comment> \<open>\<open>r{n}\<close>\<close>
  "times 0 r = Eps"
| "times (Suc n) r = Seq r (times n r)"

definition at_least :: "nat \<Rightarrow> rx \<Rightarrow> rx" where
  \<comment> \<open>\<open>r{n,}\<close>\<close>
  "at_least n r = Seq (times n r) (Star r)"

fun seqs :: "rx list \<Rightarrow> rx" where
  "seqs [] = Eps"
| "seqs (r # rs) = Seq r (seqs rs)"

fun alts :: "rx list \<Rightarrow> rx" where
  \<comment> \<open>\<open>(r1|r2|...)\<close>, at least one alternative\<close>
  "alts [] = Eps"
| "alts [r] = r"
| "alts (r # q # rs) = Alt r (alts (q # rs))"

definition unanchored :: "rx \<Rightarrow> pattern" where
  "unanchored r = \<lparr>bol = False, body = r, eol = False\<rparr>"

definition to_end :: "rx \<Rightarrow> pattern" where
  \<comment> \<open>a pattern ending in \<open>$\<close>\<close>
  "to_end r = \<lparr>bol = False, body = r, eol = True\<rparr>"

definition from_start :: "rx \<Rightarrow> pattern" where
  \<comment> \<open>a pattern starting with \<open>^\<close>\<close>
  "from_start r = \<lparr>bol = True, body = r, eol = False\<rparr>"

definition digits :: rx where
  \<comment> \<open>\<open>\d+\<close>\<close>
  "digits = plus (One Digit)"

definition slug_char :: rx where
  \<comment> \<open>\<open>[\w-]\<close>\<close>
  "slug_char = OneOf [Word, Lit (CHR ''-'')]"


section \<open>The environment\<close>

text \<open>
  The program talks to the network and to three libraries (\<open>requests\<close>, \<open>selectolax\<close>,
  \<open>urllib.parse\<close>). What they return is not fixed by the program, so every function of the
  model takes an environment that supplies it. A library call that raises returns \<open>None\<close>.
  A parsed document has type \<open>'t\<close> and a node of it type \<open>'n\<close>; \<open>decompose\<close>, which
  mutates the document, returns the new one.
\<close>

record response =
  status_code :: int
  body_text :: string  \<comment> \<open>\<open>response.text\<close>\<close>

text \<open>
  A value decoded from JSON. An object is the list of its members; a key is looked up with
  \<open>map_of\<close>. The author of a page can be any such value, since the program takes it from
  structured data without looking at its type; a Python \<open>str\<close> is \<open>JStr\<close> and \<open>None\<close> is
  \<open>JNull\<close>.
\<close>

datatype json =
    JNull
  | JBool bool
  | JNum int
  | JStr string
  | JArr "json list"
  | JObj "(string \<times> json) list"

datatype prompt = CLEANING_PROMPT | SUMMARY_PROMPT
  \<comment> \<open>the two system prompts of the program; their wording plays no part in what it computes\<close>

record llm_response =
  llm_status :: int  \<comment> \<open>\<open>r.status_code\<close>\<close>
  llm_json :: "json option"  \<comment> \<open>\<open>r.json()\<close>, \<open>None\<close> when it raises\<close>

type_synonym datetime = nat

record post =
  post_blog_id :: int
  post_url :: string
  post_title :: string
  post_text :: string
  post_html :: string
  post_author :: json
  post_tags :: "string list"
  post_published :: datetime
  post_summary :: string

record ('t, 'n) env =
  requests_get :: "string \<Rightarrow> response option"
    \<comment> \<open>the \<open>requests.get\<close> of discovery\<close>
  HTMLParser :: "string \<Rightarrow> 't option"
  css :: "'t \<Rightarrow> string \<Rightarrow> 'n list option"
  css_first :: "'t \<Rightarrow> string \<Rightarrow> 'n option option"
  attributes :: "'t \<Rightarrow> 'n \<Rightarrow> string \<Rightarrow> string option option"
    \<comment> \<open>the attribute dictionary of a node: a key is absent, or bound to a string or to \<open>None\<close>\<close>
  node_text :: "'t \<Rightarrow> 'n \<Rightarrow> string option"
    \<comment> \<open>\<open>node.text(strip=True)\<close>\<close>
  node_html :: "'t \<Rightarrow> 'n \<Rightarrow> string option"
  decompose :: "'t \<Rightarrow> 'n \<Rightarrow> 't option"
  urljoin :: "string \<Rightarrow> string \<Rightarrow> string option"
  netloc :: "string \<Rightarrow> string option"
    \<comment> \<open>\<open>urlparse(url).netloc\<close>\<close>
  url_scheme :: "string \<Rightarrow> string option"
    \<comment> \<open>\<open>urlparse(url).scheme\<close>; the program does not call it, it says what an absolute
        URL is\<close>
  pick :: "string list \<Rightarrow> nat"
    \<comment> \<open>the iteration order of sets, see \<open>list_of_set\<close>\<close>
  requests_get_article :: "string \<Rightarrow> response option"
    \<comment> \<open>the \<open>requests.get\<close> of \<open>crawl_article\<close>\<close>
  requests_post :: "prompt \<Rightarrow> string \<Rightarrow> int \<Rightarrow> llm_response option"
    \<comment> \<open>the \<open>requests.post\<close> to the text-generation service: system prompt, user content,
        \<open>max_tokens\<close>\<close>
  json_loads :: "string \<Rightarrow> json option"
  fromisoformat :: "string \<Rightarrow> datetime option"
  utcnow :: "string \<Rightarrow> datetime"
    \<comment> \<open>the clock when the metadata of this page is extracted\<close>
  upsert_post :: "post list \<Rightarrow> post \<Rightarrow> int option"
    \<comment> \<open>the persistence collaborator: the posts handed over before, the post at hand;
        the new identifier, or \<open>None\<close>\<close>
  print_symbols :: "unit option"
    \<comment> \<open>\<open>print\<close> of a message whose text holds a character outside ASCII (a warning sign,
        a cross, a dash) while an article is fetched, cleaned and stored: \<open>None\<close> when it
        raises, as it does on a standard output whose encoding lacks the character; the
        messages in ASCII, and those of discovery, are not modelled\<close>

definition dict_get :: "(string \<Rightarrow> 'v option option) \<Rightarrow> string \<Rightarrow> 'v option" where
  \<comment> \<open>\<open>d.get(key)\<close>: \<open>None\<close> when the key is absent\<close>
  "dict_get d k = (case d k of None \<Rightarrow> None | Some v \<Rightarrow> v)"

definition dict_get_default :: "(string \<Rightarrow> 'v option option) \<Rightarrow> string \<Rightarrow> 'v \<Rightarrow> 'v option" where
  \<comment> \<open>\<open>d.get(key, default)\<close>\<close>
  "dict_get_default d k v0 = (case d k of None \<Rightarrow> Some v0 | Some v \<Rightarrow> v)"


section \<open>Link extraction\<close>

definition link_denylist :: "string list" where
  "link_denylist = [''login'', ''signup'', ''privacy'', ''terms'',
                    ''contact'', ''about'', ''.jpg'', ''.png'', ''.gif'']"

fun collect_links :: "('t, 'n) env \<Rightarrow> 't \<Rightarrow> string \<Rightarrow> 'n list \<Rightarrow> string list \<Rightarrow> string list option" where
  \<comment> \<open>the loop over the anchors; \<open>links\<close> is the set built so far\<close>
  "collect_links E tree base_url [] links = Some links"
| "collect_links E tree base_url (a # as) links =
     (case dict_get (attributes E tree a) ''href'' of
        None \<Rightarrow> collect_links E tree base_url as links
      | Some href \<Rightarrow>
          if href = [] then collect_links E tree base_url as links
          else do {
            url \<leftarrow> urljoin E base_url href;
            if \<exists>x \<in> set link_denylist. contains (lower url) x
            then collect_links E tree base_url as links
            else do {
              n1 \<leftarrow> netloc E url;
              n2 \<leftarrow> netloc E base_url;
              collect_links E tree base_url as (if n1 = n2 then set_add url links else links)
            }
          })"

definition extract_article_links :: "('t, 'n) env \<Rightarrow> string \<Rightarrow> string \<Rightarrow> string list option" where
  "extract_article_links E html base_url = do {
     tree \<leftarrow> HTMLParser E html;
     anchors \<leftarrow> css E tree ''a'';
     links \<leftarrow> collect_links E tree base_url anchors [];
     Some (list_of_set (pick E) links)
   }"


section \<open>URL classification\<close>

definition hard_exclude_patterns :: "pattern list" where
  "hard_exclude_patterns = map unanchored [
     lit ''?share='',
     Seq (OneOf [Lit (CHR ''&''), Lit (CHR ''#'')]) (lit ''share=''),
     seqs [lit ''/'', digits, lit ''-'', digits, lit ''x'', digits, lit ''/''],
     seqs [digits, lit ''x'', digits, lit ''.'',
           alts [lit ''jpg'', lit ''jpeg'', lit ''png'', lit ''gif'', lit ''webp'']],
     lit ''#respond'',
     lit ''#comment'',
     seqs [lit ''/page/'', digits],
     lit ''/author/'',
     seqs [lit ''/writer'', opt (lit ''s''), lit ''/'']
   ]"

definition hard_excluded :: "string \<Rightarrow> bool" where
  "hard_excluded link = (\<exists>p \<in> set hard_exclude_patterns. re_search p link re_I)"

definition section_pattern :: "string \<Rightarrow> pattern" where
  \<comment> \<open>\<open>/name/?$\<close>\<close>
  "section_pattern name = to_end (seqs [lit ''/'', lit name, opt (lit ''/'')])"

definition soft_exclude_patterns :: "pattern list" where
  "soft_exclude_patterns = [
     section_pattern ''category'',
     section_pattern ''categories'',
     section_pattern ''tag'',
     section_pattern ''tags'',
     to_end (seqs [lit ''/topic'', opt (lit ''s''), opt (lit ''/'')]),
     section_pattern ''archive'',
     section_pattern ''archives'',
     to_end (seqs [lit ''/'', times 4 (One Digit), opt (lit ''/'')]),
     to_end (seqs [lit ''/'', times 4 (One Digit), lit ''/'', times 2 (One Digit), opt (lit ''/'')]),
     section_pattern ''hub'',
     section_pattern ''all-articles'',
     section_pattern ''news'',
     section_pattern ''world-news'',
     section_pattern ''politics'',
     section_pattern ''opinion'',
     section_pattern ''sports'',
     section_pattern ''tech'',
     section_pattern ''business'',
     section_pattern ''story''
   ]"

definition soft_excluded :: "string \<Rightarrow> bool" where
  \<comment> \<open>\<open>is_section_page\<close>\<close>
  "soft_excluded link = (\<exists>p \<in> set soft_exclude_patterns. re_search p link re_I)"

definition date_path :: rx where
  \<comment> \<open>\<open>/20\d{2}/\d{2}/\d{2}/[\w-]+\<close>\<close>
  "date_path = seqs [lit ''/20'', times 2 (One Digit), lit ''/'', times 2 (One Digit), lit ''/'',
                     times 2 (One Digit), lit ''/'', plus slug_char]"

definition news_story_pattern :: pattern where
  "news_story_pattern = unanchored (seqs [lit ''/'', alts [lit ''news'', lit ''story''], date_path])"

definition full_date_pattern :: pattern where
  "full_date_pattern = unanchored date_path"

definition wordpress_pattern :: pattern where
  \<comment> \<open>\<open>/20\d{2}/\d{2}/[\w-]{10,}\<close>\<close>
  "wordpress_pattern = unanchored (seqs [lit ''/20'', times 2 (One Digit), lit ''/'',
                                        times 2 (One Digit), lit ''/'', at_least 10 slug_char])"

definition long_slug_pattern :: pattern where
  \<comment> \<open>\<open>/[\w-]{20,}/?$\<close>\<close>
  "long_slug_pattern = to_end (seqs [lit ''/'', at_least 20 slug_char, opt (lit ''/'')])"

definition category_words :: "string list" where
  "category_words = [''news'', ''politics'', ''world'', ''business'', ''sports'',
                     ''tech'', ''technology'', ''science'', ''opinion'', ''entertainment'',
                     ''lifestyle'', ''health'', ''culture'', ''economy'', ''society'']"

definition is_article :: "string \<Rightarrow> bool" where
  \<comment> \<open>stage 3 of the link loop, for a link that is not a section page\<close>
  "is_article link =
     (if contains link ''/article/'' then True
      else if re_search news_story_pattern link no_flags then True
      else if re_search full_date_pattern link no_flags then True
      else if re_search wordpress_pattern link no_flags \<and> \<not> endswith link ''/'' then True
      else if re_search long_slug_pattern link no_flags then
        (let slug = last (split_char (CHR ''/'') (rstrip_char (CHR ''/'') link))
         in lower slug \<notin> set category_words)
      else False)"


section \<open>Discovery\<close>

text \<open>
  The state of \<open>discover_all_links\<close>: its three local collections, and the URLs it has
  passed to \<open>requests.get\<close>, in order (the requests are the visible effect of discovery).
\<close>

record frontier =
  visited :: "string list"
  queue :: "string list"
  article_urls :: "string list"
  requested :: "string list"

datatype flow = Next | Break | Raised

definition process_link :: "('t, 'n) env \<Rightarrow> string \<Rightarrow> int \<Rightarrow> frontier \<Rightarrow> string \<Rightarrow> frontier \<times> flow" where
  \<comment> \<open>the body of \<open>for link in links\<close>: the new state, and how the body ended\<close>
  "process_link E domain max_articles st link =
     (case netloc E link of
        None \<Rightarrow> (st, Raised)
      | Some n \<Rightarrow>
          if n \<noteq> domain then (st, Next)
          else if hard_excluded link then (st, Next)
          else
            let is_section_page = soft_excluded link;
                st1 = (if link \<notin> set (visited st) then st\<lparr>queue := queue st @ [link]\<rparr> else st)
            in if \<not> is_section_page then
                 if is_article link \<and> link \<notin> set (article_urls st1) then
                   let st2 = st1\<lparr>article_urls := set_add link (article_urls st1)\<rparr>
                   in if max_articles \<le> int (length (article_urls st2)) then (st2, Break)
                      else (st2, Next)
                 else (st1, Next)
               else (st1, Next))"

fun process_links :: "('t, 'n) env \<Rightarrow> string \<Rightarrow> int \<Rightarrow> frontier \<Rightarrow> string list \<Rightarrow> frontier \<times> flow" where
  "process_links E domain max_articles st [] = (st, Next)"
| "process_links E domain max_articles st (link # links) =
     (case process_link E domain max_articles st link of
        (st', Next) \<Rightarrow> process_links E domain max_articles st' links
      | (st', Break) \<Rightarrow> (st', Break)
      | (st', Raised) \<Rightarrow> (st', Raised))"

definition visit :: "('t, 'n) env \<Rightarrow> string \<Rightarrow> int \<Rightarrow> frontier \<Rightarrow> frontier" where
  \<comment> \<open>one round of the \<open>while\<close> loop; the loop runs it only on a non-empty queue\<close>
  "visit E domain max_articles st =
     (case queue st of
        [] \<Rightarrow> st
      | url # rest \<Rightarrow>
          let st1 = st\<lparr>queue := rest\<rparr> in
          if url \<in> set (visited st1) then st1
          else
            let st2 = st1\<lparr>visited := set_add url (visited st1),
                         requested := requested st1 @ [url]\<rparr> in
            case requests_get E url of
              None \<Rightarrow> st2
            | Some r \<Rightarrow>
                if status_code r \<noteq> 200 then st2
                else case extract_article_links E (body_text r) url of
                       None \<Rightarrow> st2
                     | Some links \<Rightarrow> fst (process_links E domain max_articles st2 links))"

definition running :: "int \<Rightarrow> int \<Rightarrow> frontier \<Rightarrow> bool" where
  \<comment> \<open>the condition of the \<open>while\<close> loop\<close>
  "running max_pages max_articles st =
     (queue st \<noteq> [] \<and> int (length (visited st)) < max_pages
      \<and> int (length (article_urls st)) < max_articles)"

definition start_frontier :: "string \<Rightarrow> frontier" where
  "start_frontier start_url =
     \<lparr>visited = [], queue = [start_url], article_urls = [], requested = []\<rparr>"

lemma process_link_visited:
  "visited (fst (process_link E domain max_articles st link)) = visited st"
  by (simp add: process_link_def Let_def split: option.splits)

lemma process_links_visited:
  "visited (fst (process_links E domain max_articles st links)) = visited st"
proof (induction links arbitrary: st)
  case Nil
  then show ?case by simp
next
  case (Cons link links)
  obtain st' fl where step: "process_link E domain max_articles st link = (st', fl)"
    by (cases "process_link E domain max_articles st link")
  have "visited st' = visited st"
    using process_link_visited [of E domain max_articles st link] step by simp
  with Cons step show ?case
    by (cases fl) simp_all
qed

lemma visit_progress:
  assumes "queue st \<noteq> []"
  shows "(visited (visit E domain max_articles st) = visited st
            \<and> length (queue (visit E domain max_articles st)) < length (queue st))
         \<or> length (visited (visit E domain max_articles st)) = Suc (length (visited st))"
proof -
  from assms obtain url rest where q: "queue st = url # rest"
    by (cases "queue st") auto
  show ?thesis
  proof (cases "url \<in> set (visited st)")
    case True
    with q show ?thesis by (simp add: visit_def)
  next
    case False
    with q have "visited (visit E domain max_articles st) = visited st @ [url]"
      by (simp add: visit_def set_add_def Let_def process_links_visited split: option.splits)
    then show ?thesis by simp
  qed
qed

function discover_loop :: "('t, 'n) env \<Rightarrow> string \<Rightarrow> int \<Rightarrow> int \<Rightarrow> frontier \<Rightarrow> frontier" where
  \<comment> \<open>the \<open>while\<close> loop, from the state \<open>st\<close> on\<close>
  "discover_loop E domain max_pages max_articles st =
     (if running max_pages max_articles st
      then discover_loop E domain max_pages max_articles (visit E domain max_articles st)
      else st)"
  by pat_completeness auto
termination
proof (relation "measures [\<lambda>(E, domain, max_pages, max_articles, st). nat (max_pages - int (length (visited st))),
                           \<lambda>(E, domain, max_pages, max_articles, st). length (queue st)]")
  show "wf (measures [\<lambda>(E :: ('t, 'n) env, domain :: string, max_pages :: int, max_articles :: int, st). nat (max_pages - int (length (visited st))),
                      \<lambda>(E, domain, max_pages, max_articles, st). length (queue st)])"
    by simp
next
  fix E :: "('t, 'n) env" and domain :: string and max_pages max_articles :: int and st :: frontier
  assume run: "running max_pages max_articles st"
  then have "queue st \<noteq> []" and "int (length (visited st)) < max_pages"
    by (simp_all add: running_def)
  with visit_progress [of st E domain max_articles]
  show "((E, domain, max_pages, max_articles, visit E domain max_articles st),
         (E, domain, max_pages, max_articles, st))
        \<in> measures [\<lambda>(E, domain, max_pages, max_articles, st). nat (max_pages - int (length (visited st))),
                     \<lambda>(E, domain, max_pages, max_articles, st). length (queue st)]"
    by auto
qed

declare discover_loop.simps [simp del]

function discover_states :: "('t, 'n) env \<Rightarrow> string \<Rightarrow> int \<Rightarrow> int \<Rightarrow> frontier \<Rightarrow> frontier list" where
  \<comment> \<open>the states at which the loop condition is tested, in order; the last is the final one\<close>
  "discover_states E domain max_pages max_articles st =
     st # (if running max_pages max_articles st
           then discover_states E domain max_pages max_articles (visit E domain max_articles st)
           else [])"
  by pat_completeness auto
termination
proof (relation "measures [\<lambda>(E, domain, max_pages, max_articles, st). nat (max_pages - int (length (visited st))),
                           \<lambda>(E, domain, max_pages, max_articles, st). length (queue st)]")
  show "wf (measures [\<lambda>(E :: ('t, 'n) env, domain :: string, max_pages :: int, max_articles :: int, st). nat (max_pages - int (length (visited st))),
                      \<lambda>(E, domain, max_pages, max_articles, st). length (queue st)])"
    by simp
next
  fix E :: "('t, 'n) env" and domain :: string and max_pages max_articles :: int and st :: frontier
  assume run: "running max_pages max_articles st"
  then have "queue st \<noteq> []" and "int (length (visited st)) < max_pages"
    by (simp_all add: running_def)
  with visit_progress [of st E domain max_articles]
  show "((E, domain, max_pages, max_articles, visit E domain max_articles st),
         (E, domain, max_pages, max_articles, st))
        \<in> measures [\<lambda>(E, domain, max_pages, max_articles, st). nat (max_pages - int (length (visited st))),
                     \<lambda>(E, domain, max_pages, max_articles, st). length (queue st)]"
    by auto
qed

declare discover_states.simps [simp del]

definition discover_frontier :: "('t, 'n) env \<Rightarrow> string \<Rightarrow> int \<Rightarrow> int \<Rightarrow> frontier option" where
  \<comment> \<open>the state in which the loop ends; \<open>None\<close> when \<open>urlparse(start_url)\<close> raises\<close>
  "discover_frontier E start_url max_pages max_articles = do {
     domain \<leftarrow> netloc E start_url;
     Some (discover_loop E domain max_pages max_articles (start_frontier start_url))
   }"

definition discover_all_links :: "('t, 'n) env \<Rightarrow> string \<Rightarrow> int \<Rightarrow> int \<Rightarrow> string list option" where
  "discover_all_links E start_url max_pages max_articles = do {
     st \<leftarrow> discover_frontier E start_url max_pages max_articles;
     Some (slice_to max_articles (list_of_set (pick E) (article_urls st)))
   }"


section \<open>Invariants of discovery\<close>

lemma set_add_set: "set (set_add x s) = insert x (set s)"
  by (auto simp: set_add_def)

lemma set_add_distinct: "distinct s \<Longrightarrow> distinct (set_add x s)"
  by (simp add: set_add_def)

lemma discover_states_unfold:
  "discover_states E domain max_pages max_articles st =
     st # (if running max_pages max_articles st
           then discover_states E domain max_pages max_articles (visit E domain max_articles st)
           else [])"
  by (rule discover_states.simps)

lemma discover_states_invariant:
  assumes "P st"
    and "\<And>s. P s \<Longrightarrow> running max_pages max_articles s \<Longrightarrow> P (visit E domain max_articles s)"
  shows "\<forall>s \<in> set (discover_states E domain max_pages max_articles st). P s"
  using assms
proof (induction E domain max_pages max_articles st rule: discover_states.induct)
  case (1 E domain max_pages max_articles st)
  show ?case
  proof (cases "running max_pages max_articles st")
    case True
    have "P (visit E domain max_articles st)"
      using "1.prems"(2) [OF "1.prems"(1) True] .
    then have rest: "\<forall>s \<in> set (discover_states E domain max_pages max_articles (visit E domain max_articles st)). P s"
      using "1.IH" [OF True] "1.prems"(2) by blast
    have "set (discover_states E domain max_pages max_articles st) =
          insert st (set (discover_states E domain max_pages max_articles (visit E domain max_articles st)))"
      using True by (subst discover_states_unfold) simp
    with rest "1.prems"(1) show ?thesis by simp
  next
    case False
    then have "set (discover_states E domain max_pages max_articles st) = {st}"
      by (subst discover_states_unfold) simp
    with "1.prems"(1) show ?thesis by simp
  qed
qed

lemma discover_loop_in_states:
  "discover_loop E domain max_pages max_articles st \<in> set (discover_states E domain max_pages max_articles st)"
proof (induction E domain max_pages max_articles st rule: discover_loop.induct)
  case (1 E domain max_pages max_articles st)
  show ?case
  proof (cases "running max_pages max_articles st")
    case True
    then show ?thesis
      using "1.IH" by (subst discover_loop.simps, subst discover_states.simps) simp
  next
    case False
    then show ?thesis
      by (subst discover_loop.simps, subst discover_states.simps) simp
  qed
qed

lemma discover_loop_last:
  "discover_loop E domain max_pages max_articles st = last (discover_states E domain max_pages max_articles st)"
proof (induction E domain max_pages max_articles st rule: discover_loop.induct)
  case (1 E domain max_pages max_articles st)
  show ?case
  proof (cases "running max_pages max_articles st")
    case True
    have ne: "discover_states E domain max_pages max_articles (visit E domain max_articles st) \<noteq> []"
      by (subst discover_states.simps) simp
    show ?thesis
      using True "1.IH" ne by (subst discover_loop.simps, subst discover_states.simps) simp
  next
    case False
    then show ?thesis
      by (subst discover_loop.simps, subst discover_states.simps) simp
  qed
qed

lemma discover_loop_stops:
  "\<not> running max_pages max_articles (discover_loop E domain max_pages max_articles st)"
proof (induction E domain max_pages max_articles st rule: discover_loop.induct)
  case (1 E domain max_pages max_articles st)
  then show ?case
    by (subst discover_loop.simps) simp
qed

lemma process_link_requested:
  "requested (fst (process_link E domain max_articles st link)) = requested st"
  by (simp add: process_link_def Let_def split: option.splits)

lemma process_link_queue:
  "queue (fst (process_link E domain max_articles st link)) = queue st
   \<or> (queue (fst (process_link E domain max_articles st link)) = queue st @ [link]
       \<and> link \<notin> set (visited st) \<and> \<not> hard_excluded link \<and> netloc E link = Some domain)"
  by (simp add: process_link_def Let_def split: option.splits)

lemma process_link_article_urls:
  "article_urls (fst (process_link E domain max_articles st link)) = article_urls st
   \<or> (article_urls (fst (process_link E domain max_articles st link)) = article_urls st @ [link]
       \<and> link \<notin> set (article_urls st) \<and> \<not> hard_excluded link \<and> \<not> soft_excluded link
       \<and> is_article link)"
  by (simp add: process_link_def Let_def set_add_def split: option.splits)

lemma process_link_bound:
  assumes "int (length (article_urls st)) < max_articles"
    and "process_link E domain max_articles st link = (st', fl)"
  shows "int (length (article_urls st')) \<le> max_articles
         \<and> (fl = Next \<longrightarrow> int (length (article_urls st')) < max_articles)"
  using assms
  by (auto simp: process_link_def Let_def set_add_def split: option.splits if_splits)

lemma process_links_preserves:
  assumes "Q st"
    and "\<And>s l. Q s \<Longrightarrow> Q (fst (process_link E domain max_articles s l))"
  shows "Q (fst (process_links E domain max_articles st links))"
  using assms(1)
proof (induction links arbitrary: st)
  case Nil
  then show ?case by simp
next
  case (Cons link links)
  obtain st' fl where step: "process_link E domain max_articles st link = (st', fl)"
    by (cases "process_link E domain max_articles st link")
  have q': "Q st'"
    using assms(2) [OF Cons.prems, of link] step by simp
  show ?case
  proof (cases fl)
    case Next
    with step Cons.IH [OF q'] show ?thesis by simp
  next
    case Break
    with step q' show ?thesis by simp
  next
    case Raised
    with step q' show ?thesis by simp
  qed
qed

lemma process_links_bound:
  assumes "int (length (article_urls st)) < max_articles"
  shows "int (length (article_urls (fst (process_links E domain max_articles st links)))) \<le> max_articles"
  using assms
proof (induction links arbitrary: st)
  case Nil
  then show ?case by simp
next
  case (Cons link links)
  obtain st' fl where step: "process_link E domain max_articles st link = (st', fl)"
    by (cases "process_link E domain max_articles st link")
  note b = process_link_bound [OF Cons.prems step]
  show ?case
  proof (cases fl)
    case Next
    with b have "int (length (article_urls st')) < max_articles" by simp
    from Cons.IH [OF this] step Next show ?thesis by simp
  next
    case Break
    with step b show ?thesis by simp
  next
    case Raised
    with step b show ?thesis by simp
  qed
qed

text \<open>What one round of the loop does to each component.\<close>

lemma visit_cases:
  assumes "queue st = url # rest"
  shows "(url \<in> set (visited st) \<and> visit E domain max_articles st = st\<lparr>queue := rest\<rparr>)
       \<or> (url \<notin> set (visited st)
          \<and> (visit E domain max_articles st
                = st\<lparr>queue := rest, visited := visited st @ [url], requested := requested st @ [url]\<rparr>
              \<or> (\<exists>links. visit E domain max_articles st
                    = fst (process_links E domain max_articles
                             (st\<lparr>queue := rest, visited := visited st @ [url],
                                 requested := requested st @ [url]\<rparr>) links))))"
  using assms
  by (auto simp: visit_def Let_def set_add_def split: option.splits)

lemma process_links_requested:
  "requested (fst (process_links E domain max_articles st links)) = requested st"
  by (rule process_links_preserves [where Q = "\<lambda>s. requested s = requested st"])
     (simp_all add: process_link_requested)

lemma process_links_distinct_articles:
  "distinct (article_urls st) \<Longrightarrow>
   distinct (article_urls (fst (process_links E domain max_articles st links)))"
proof (rule process_links_preserves [where Q = "\<lambda>s. distinct (article_urls s)"])
  fix s :: frontier and l
  assume "distinct (article_urls s)"
  with process_link_article_urls [of E domain max_articles s l]
  show "distinct (article_urls (fst (process_link E domain max_articles s l)))"
    by auto
qed

definition bounded :: "int \<Rightarrow> int \<Rightarrow> frontier \<Rightarrow> bool" where
  "bounded max_pages max_articles st =
     (distinct (visited st) \<and> requested st = visited st
      \<and> int (length (visited st)) \<le> max 0 max_pages
      \<and> distinct (article_urls st)
      \<and> int (length (article_urls st)) \<le> max 0 max_articles)"

lemma bounded_start: "bounded max_pages max_articles (start_frontier start_url)"
  by (simp add: bounded_def start_frontier_def)

lemma bounded_visit:
  assumes inv: "bounded max_pages max_articles st"
    and run: "running max_pages max_articles st"
  shows "bounded max_pages max_articles (visit E domain max_articles st)"
proof -
  from run obtain url rest where q: "queue st = url # rest"
    by (cases "queue st") (auto simp: running_def)
  from run have lt: "int (length (visited st)) < max_pages"
    "int (length (article_urls st)) < max_articles"
    by (simp_all add: running_def)
  let ?st2 = "st\<lparr>queue := rest, visited := visited st @ [url], requested := requested st @ [url]\<rparr>"
  from visit_cases [OF q, of E domain max_articles]
  consider (seen) "visit E domain max_articles st = st\<lparr>queue := rest\<rparr>"
    | (failed) "url \<notin> set (visited st)" "visit E domain max_articles st = ?st2"
    | (links) links where "url \<notin> set (visited st)"
        "visit E domain max_articles st = fst (process_links E domain max_articles ?st2 links)"
    by blast
  then show ?thesis
  proof cases
    case seen
    with inv show ?thesis by (simp add: bounded_def)
  next
    case failed
    with inv lt show ?thesis by (simp add: bounded_def)
  next
    case links
    have "int (length (article_urls ?st2)) < max_articles" using lt by simp
    from process_links_bound [OF this, of E domain links]
    have b: "int (length (article_urls (visit E domain max_articles st))) \<le> max_articles"
      using links by simp
    have d: "distinct (article_urls (visit E domain max_articles st))"
      using inv links process_links_distinct_articles [of ?st2 E domain max_articles links]
      by (simp add: bounded_def)
    have v: "visited (visit E domain max_articles st) = visited st @ [url]"
      "requested (visit E domain max_articles st) = requested st @ [url]"
      using links by (simp_all add: process_links_visited process_links_requested)
    from inv lt links(1) b d v show ?thesis
      by (simp add: bounded_def)
  qed
qed

definition admissible :: "string \<Rightarrow> frontier \<Rightarrow> bool" where
  \<comment> \<open>but for the start URL, nothing queued or visited is hard-excluded\<close>
  "admissible start_url st =
     (\<forall>u \<in> set (queue st) \<union> set (visited st). u = start_url \<or> \<not> hard_excluded u)"

lemma admissible_start: "admissible start_url (start_frontier start_url)"
  by (simp add: admissible_def start_frontier_def)

lemma admissible_process_links:
  assumes "admissible start_url st"
  shows "admissible start_url (fst (process_links E domain max_articles st links))"
proof (rule process_links_preserves [where Q = "admissible start_url", OF assms])
  fix s :: frontier and l
  assume "admissible start_url s"
  with process_link_queue [of E domain max_articles s l]
  show "admissible start_url (fst (process_link E domain max_articles s l))"
    by (auto simp: admissible_def process_link_visited)
qed

lemma admissible_visit:
  assumes inv: "admissible start_url st"
  shows "admissible start_url (visit E domain max_articles st)"
proof (cases "queue st")
  case Nil
  with inv show ?thesis by (simp add: visit_def)
next
  case (Cons url rest)
  let ?st2 = "st\<lparr>queue := rest, visited := visited st @ [url], requested := requested st @ [url]\<rparr>"
  have a2: "admissible start_url ?st2"
    using inv Cons by (auto simp: admissible_def)
  have a1: "admissible start_url (st\<lparr>queue := rest\<rparr>)"
    using inv Cons by (auto simp: admissible_def)
  from visit_cases [OF Cons, of E domain max_articles] a1 a2 admissible_process_links [OF a2]
  show ?thesis by auto
qed

definition only_articles :: "frontier \<Rightarrow> bool" where
  "only_articles st =
     (\<forall>u \<in> set (article_urls st). \<not> hard_excluded u \<and> \<not> soft_excluded u \<and> is_article u)"

lemma only_articles_start: "only_articles (start_frontier start_url)"
  by (simp add: only_articles_def start_frontier_def)

lemma only_articles_process_links:
  assumes "only_articles st"
  shows "only_articles (fst (process_links E domain max_articles st links))"
proof (rule process_links_preserves [where Q = only_articles, OF assms])
  fix s :: frontier and l
  assume "only_articles s"
  with process_link_article_urls [of E domain max_articles s l]
  show "only_articles (fst (process_link E domain max_articles s l))"
    by (auto simp: only_articles_def)
qed

lemma only_articles_visit:
  assumes inv: "only_articles st"
  shows "only_articles (visit E domain max_articles st)"
proof (cases "queue st")
  case Nil
  with inv show ?thesis by (simp add: visit_def)
next
  case (Cons url rest)
  let ?st2 = "st\<lparr>queue := rest, visited := visited st @ [url], requested := requested st @ [url]\<rparr>"
  have a2: "only_articles ?st2"
    using inv by (simp add: only_articles_def)
  have a1: "only_articles (st\<lparr>queue := rest\<rparr>)"
    using inv by (simp add: only_articles_def)
  from visit_cases [OF Cons, of E domain max_articles] a1 a2 only_articles_process_links [OF a2]
  show ?thesis by auto
qed

lemma mset_remove_nth:
  "i < length xs \<Longrightarrow> add_mset (xs ! i) (mset (remove_nth i xs)) = mset xs"
proof -
  assume "i < length xs"
  then have "xs = take i xs @ xs ! i # drop (Suc i) xs"
    by (rule id_take_nth_drop)
  then have "mset xs = mset (take i xs @ xs ! i # drop (Suc i) xs)"
    by simp
  then show ?thesis
    by (simp add: remove_nth_def)
qed

lemma length_remove_nth:
  "i < length xs \<Longrightarrow> length (remove_nth i xs) = length xs - 1"
  by (simp add: remove_nth_def)

lemma mset_iterate_set:
  "length xs = n \<Longrightarrow> mset (iterate_set p n xs) = mset xs"
proof (induction n arbitrary: xs)
  case 0
  then show ?case by simp
next
  case (Suc n)
  then have ne: "xs \<noteq> []" by auto
  define i where "i = p xs mod length xs"
  with ne have i: "i < length xs" by simp
  with Suc.prems have "length (remove_nth i xs) = n"
    by (simp add: length_remove_nth)
  from Suc.IH [OF this] mset_remove_nth [OF i] ne show ?case
    by (simp add: i_def Let_def)
qed

lemma mset_list_of_set: "mset (list_of_set p xs) = mset xs"
  by (simp add: list_of_set_def mset_iterate_set)

lemma set_list_of_set: "set (list_of_set p xs) = set xs"
  using mset_list_of_set [of p xs] by (metis set_mset_mset)

lemma length_list_of_set: "length (list_of_set p xs) = length xs"
  using mset_list_of_set [of p xs] by (metis size_mset)

lemma distinct_list_of_set: "distinct (list_of_set p xs) = distinct xs"
  using mset_list_of_set [of p xs] by (metis mset_eq_imp_distinct_iff)

lemma slice_to_all:
  "int (length xs) \<le> max 0 n \<Longrightarrow> slice_to n xs = xs"
  by (auto simp: slice_to_def max_def split: if_splits)

lemma bounded_states:
  "\<forall>s \<in> set (discover_states E domain max_pages max_articles (start_frontier start_url)).
     bounded max_pages max_articles s"
  by (rule discover_states_invariant) (simp_all add: bounded_start bounded_visit)

lemma admissible_states:
  "\<forall>s \<in> set (discover_states E domain max_pages max_articles (start_frontier start_url)).
     admissible start_url s"
  by (rule discover_states_invariant) (simp_all add: admissible_start admissible_visit)

lemma only_articles_states:
  "\<forall>s \<in> set (discover_states E domain max_pages max_articles (start_frontier start_url)).
     only_articles s"
  by (rule discover_states_invariant) (simp_all add: only_articles_start only_articles_visit)

lemma discover_frontier_final:
  assumes "discover_frontier E start_url max_pages max_articles = Some st"
  obtains domain where "netloc E start_url = Some domain"
    and "st = discover_loop E domain max_pages max_articles (start_frontier start_url)"
    and "st \<in> set (discover_states E domain max_pages max_articles (start_frontier start_url))"
proof -
  from assms obtain domain where d: "netloc E start_url = Some domain"
    and st: "st = discover_loop E domain max_pages max_articles (start_frontier start_url)"
    by (auto simp: discover_frontier_def split: Option.bind_splits)
  from st have "st \<in> set (discover_states E domain max_pages max_articles (start_frontier start_url))"
    by (simp add: discover_loop_in_states)
  with d st that show thesis by blast
qed

lemma discover_all_links_result:
  assumes "discover_frontier E start_url max_pages max_articles = Some st"
  shows "discover_all_links E start_url max_pages max_articles
           = Some (list_of_set (pick E) (article_urls st))"
proof -
  from assms obtain domain
    where "st \<in> set (discover_states E domain max_pages max_articles (start_frontier start_url))"
    by (rule discover_frontier_final)
  with bounded_states have "bounded max_pages max_articles st" by blast
  then have "int (length (list_of_set (pick E) (article_urls st))) \<le> max 0 max_articles"
    by (simp add: bounded_def length_list_of_set)
  then have "slice_to max_articles (list_of_set (pick E) (article_urls st))
               = list_of_set (pick E) (article_urls st)"
    by (rule slice_to_all)
  with assms show ?thesis
    by (simp add: discover_all_links_def)
qed

lemma process_link_hard_excluded:
  "hard_excluded link \<Longrightarrow> fst (process_link E domain max_articles st link) = st"
  by (simp add: process_link_def split: option.splits)

lemma process_link_section:
  assumes "soft_excluded link" and "\<not> hard_excluded link" and "netloc E link = Some domain"
  shows "process_link E domain max_articles st link =
           (if link \<in> set (visited st) then st else st\<lparr>queue := queue st @ [link]\<rparr>, Next)"
  using assms by (simp add: process_link_def)


section \<open>A small site\<close>

text \<open>
  Concrete environments for running the model. A site is a list of pages, each a URL with
  the \<open>href\<close>s of its anchors; a page's body is its anchors written out, and the parser
  returns the anchors of the body it is given. An \<open>href\<close> is an absolute \<open>http\<close> URL or a
  path from the root, to which \<open>urljoin\<close> prefixes the origin of the site. A URL that is
  not a page of the site answers 404.
\<close>

lemmas rx_eval = re_search_def match_at_def at_bol_def at_eol_def unanchored_def to_end_def
  from_start_def lit_def opt_def plus_def at_least_def digits_def slug_char_def
  no_flags_def re_I_def newline_def lower_char_ascii isdecimal_ascii isword_ascii isspace_ascii

lemmas hard_eval = hard_excluded_def hard_exclude_patterns_def rx_eval

lemmas soft_eval = soft_excluded_def soft_exclude_patterns_def section_pattern_def rx_eval
  eval_nat_numeral

lemmas article_eval = is_article_def news_story_pattern_def full_date_pattern_def
  wordpress_pattern_def long_slug_pattern_def date_path_def endswith_def category_words_def
  rstrip_char_def lower_def rx_eval eval_nat_numeral

definition render :: "string list \<Rightarrow> string" where
  "render hrefs = concat (map (\<lambda>h. ''<a href='' @ h @ ''></a>'') hrefs)"

definition site_env :: "(string \<times> string list) list \<Rightarrow> (string list \<Rightarrow> nat) \<Rightarrow> (string, string) env" where
  "site_env site order = \<lparr>
     requests_get = (\<lambda>url. case map_of site url of
                       None \<Rightarrow> Some \<lparr>status_code = 404, body_text = ''''\<rparr>
                     | Some hrefs \<Rightarrow> Some \<lparr>status_code = 200, body_text = render hrefs\<rparr>),
     HTMLParser = (\<lambda>html. Some html),
     css = (\<lambda>t sel. Some (if sel = ''a''
                             then (case map_of (map (\<lambda>page. (render (snd page), snd page)) site) t of
                                     None \<Rightarrow> [] | Some hrefs \<Rightarrow> hrefs)
                             else [])),
     css_first = (\<lambda>t sel. Some None),
     attributes = (\<lambda>t n key. if key = ''href'' then Some (Some n) else None),
     node_text = (\<lambda>t n. Some ''''),
     node_html = (\<lambda>t n. Some ''''),
     decompose = (\<lambda>t n. Some t),
     urljoin = (\<lambda>base href. Some (if startswith href ''http://'' then href
                                     else ''http://s.com'' @ href)),
     netloc = (\<lambda>url. Some (if startswith url ''http://''
                              then takeWhile (\<lambda>c. c \<noteq> CHR ''/'') (drop 7 url) else '''')),
     url_scheme = (\<lambda>url. Some (if startswith url ''http://'' then ''http'' else '''')),
     pick = order,
     requests_get_article = (\<lambda>url. None),
     requests_post = (\<lambda>system user max_tokens. None),
     json_loads = (\<lambda>s. None),
     fromisoformat = (\<lambda>s. None),
     utcnow = (\<lambda>html. 0),
     upsert_post = (\<lambda>earlier p. None),
     print_symbols = Some ()
   \<rparr>"

lemma site_env_fields:
  "requests_get (site_env site order) url =
     (case map_of site url of
        None \<Rightarrow> Some \<lparr>status_code = 404, body_text = ''''\<rparr>
      | Some hrefs \<Rightarrow> Some \<lparr>status_code = 200, body_text = render hrefs\<rparr>)"
  "HTMLParser (site_env site order) html = Some html"
  "css (site_env site order) t sel =
     Some (if sel = ''a''
           then (case map_of (map (\<lambda>page. (render (snd page), snd page)) site) t of
                   None \<Rightarrow> [] | Some hrefs \<Rightarrow> hrefs)
           else [])"
  "attributes (site_env site order) t n key = (if key = ''href'' then Some (Some n) else None)"
  "urljoin (site_env site order) base href =
     Some (if startswith href ''http://'' then href else ''http://s.com'' @ href)"
  "netloc (site_env site order) url =
     Some (if startswith url ''http://'' then takeWhile (\<lambda>c. c \<noteq> CHR ''/'') (drop 7 url)
           else '''')"
  "url_scheme (site_env site order) url =
     Some (if startswith url ''http://'' then ''http'' else '''')"
  "pick (site_env site order) = order"
  by (simp_all add: site_env_def)

lemmas run_eval = discover_frontier_def discover_all_links_def discover_loop.simps running_def
  start_frontier_def visit_def extract_article_links_def process_link_def set_add_def
  list_of_set_def remove_nth_def slice_to_def dict_get_def link_denylist_def lower_def
  lower_char_ascii site_env_fields render_def Let_def

lemma class_a:
  "hard_excluded ''http://s.com/a'' = False"
  "soft_excluded ''http://s.com/a'' = False"
  "is_article ''http://s.com/a'' = False"
  by (simp add: hard_eval, simp add: soft_eval, simp add: article_eval)

lemma class_b:
  "hard_excluded ''http://s.com/b'' = False"
  "soft_excluded ''http://s.com/b'' = False"
  "is_article ''http://s.com/b'' = False"
  by (simp add: hard_eval, simp add: soft_eval, simp add: article_eval)

lemma class_x:
  "hard_excluded ''http://s.com/article/x'' = False"
  "soft_excluded ''http://s.com/article/x'' = False"
  "is_article ''http://s.com/article/x'' = True"
  by (simp add: hard_eval, simp add: soft_eval, simp add: article_eval)

lemma class_y:
  "hard_excluded ''http://s.com/article/y'' = False"
  "soft_excluded ''http://s.com/article/y'' = False"
  "is_article ''http://s.com/article/y'' = True"
  by (simp add: hard_eval, simp add: soft_eval, simp add: article_eval)

lemma class_news:
  "hard_excluded ''http://s.com/news'' = False"
  "soft_excluded ''http://s.com/news'' = True"
  by (simp add: hard_eval, simp add: soft_eval)

lemma class_author:
  "hard_excluded ''http://s.com/author/ann'' = True"
  by (simp add: hard_eval)

lemma class_page:
  "hard_excluded ''http://s.com/page/2'' = True"
  by (simp add: hard_eval)

definition small_site :: "(string \<times> string list) list" where
  "small_site = [(''http://s.com/'', [''/a'', ''/b'', ''/article/x'']),
                 (''http://s.com/a'', [''/b'', ''/article/y''])]"

definition y_first :: "string list \<Rightarrow> nat" where
  "y_first xs = length (takeWhile (\<lambda>u. u \<noteq> ''http://s.com/article/y'') xs)"

definition small_end :: frontier where
  "small_end = \<lparr>visited = [''http://s.com/'', ''http://s.com/a''],
                queue = [''http://s.com/b'', ''http://s.com/article/x'',
                         ''http://s.com/article/y'', ''http://s.com/b''],
                article_urls = [''http://s.com/article/x'', ''http://s.com/article/y''],
                requested = [''http://s.com/'', ''http://s.com/a'']\<rparr>"

lemma small_site_loop:
  "discover_loop (site_env small_site y_first) ''s.com'' 2 10 (start_frontier ''http://s.com/'')
     = small_end"
  by (simp add: run_eval small_site_def y_first_def small_end_def class_a class_b class_x class_y)

lemma small_site_run:
  "discover_frontier (site_env small_site y_first) ''http://s.com/'' 2 10 = Some small_end"
  by (simp add: discover_frontier_def site_env_fields small_site_loop)

lemma small_site_result:
  "discover_all_links (site_env small_site y_first) ''http://s.com/'' 2 10
     = Some [''http://s.com/article/y'', ''http://s.com/article/x'']"
  by (simp add: discover_all_links_def small_site_run small_end_def site_env_fields y_first_def
        list_of_set_def remove_nth_def slice_to_def)

definition author_site :: "(string \<times> string list) list" where
  "author_site = [(''http://s.com/author/ann'', [''/author/ann'', ''/a''])]"

lemma author_site_links:
  "extract_article_links (site_env author_site (\<lambda>xs. 0)) (render [''/author/ann'', ''/a''])
     ''http://s.com/author/ann'' = Some [''http://s.com/author/ann'', ''http://s.com/a'']"
  by (simp add: run_eval author_site_def)

lemma author_site_run:
  "discover_frontier (site_env author_site (\<lambda>xs. 0)) ''http://s.com/author/ann'' 1 10
     = Some \<lparr>visited = [''http://s.com/author/ann''], queue = [''http://s.com/a''],
             article_urls = [], requested = [''http://s.com/author/ann'']\<rparr>"
  by (simp add: run_eval author_site_def class_a class_author)

definition budget_site :: "(string \<times> string list) list" where
  "budget_site = [(''http://s.com/'', [''/article/x'', ''/news''])]"

lemma budget_site_links:
  "extract_article_links (site_env budget_site (\<lambda>xs. 0)) (render [''/article/x'', ''/news''])
     ''http://s.com/'' = Some [''http://s.com/article/x'', ''http://s.com/news'']"
  by (simp add: run_eval budget_site_def)

lemma budget_site_states:
  "discover_states (site_env budget_site (\<lambda>xs. 0)) ''s.com'' 500 1 (start_frontier ''http://s.com/'')
     = [start_frontier ''http://s.com/'',
        \<lparr>visited = [''http://s.com/''], queue = [''http://s.com/article/x''],
          article_urls = [''http://s.com/article/x''], requested = [''http://s.com/'']\<rparr>]"
  by (simp add: discover_states.simps run_eval budget_site_def class_x class_news)

lemma small_end_reached:
  "small_end \<in> set (discover_states (site_env small_site y_first) ''s.com'' 2 10
                      (start_frontier ''http://s.com/''))"
  using discover_loop_in_states [of "site_env small_site y_first" "''s.com''" 2 10
          "start_frontier ''http://s.com/''"]
  by (simp add: small_site_loop)


section \<open>Properties of discovery\<close>

text \<open>
  Claim C1. For every start URL and budgets \<open>max_pages\<close> and \<open>max_articles\<close>,
  discovery adds at most \<open>max_pages\<close> distinct URLs to the visited set and returns a list
  of at most \<open>max_articles\<close> article URLs. (With a budget below zero nothing is visited
  and nothing returned, hence the bound \<open>max 0\<close>.)
\<close>

theorem discovery_within_budgets:
  assumes "discover_frontier E start_url max_pages max_articles = Some st"
  shows "distinct (visited st) \<and> int (length (visited st)) \<le> max 0 max_pages
       \<and> (\<exists>urls. discover_all_links E start_url max_pages max_articles = Some urls
                  \<and> int (length urls) \<le> max 0 max_articles)"
proof -
  from assms obtain domain
    where "st \<in> set (discover_states E domain max_pages max_articles (start_frontier start_url))"
    by (rule discover_frontier_final)
  with bounded_states have b: "bounded max_pages max_articles st" by blast
  from discover_all_links_result [OF assms] b
  have "\<exists>urls. discover_all_links E start_url max_pages max_articles = Some urls
              \<and> int (length urls) \<le> max 0 max_articles"
    by (simp add: bounded_def length_list_of_set)
  with b show ?thesis by (simp add: bounded_def)
qed

text \<open>
  The run of \<open>small_site\<close> with two pages allowed satisfies the hypothesis of C1.
\<close>

theorem discovery_within_budgets_witness:
  "discover_frontier (site_env small_site y_first) ''http://s.com/'' 2 10 = Some small_end
   \<and> distinct (visited small_end) \<and> int (length (visited small_end)) \<le> max 0 2
   \<and> (\<exists>urls. discover_all_links (site_env small_site y_first) ''http://s.com/'' 2 10 = Some urls
              \<and> int (length urls) \<le> max 0 10)"
  using discovery_within_budgets [OF small_site_run] small_site_run by blast

text \<open>
  Claim C3 says that discovery returns the article URLs in the order in which they were
  first added to the accumulator. The accumulator is a set, and \<open>list(article_urls)\<close>
  lists it in the iteration order of that set. On \<open>small_site\<close>, \<open>/article/x\<close> is found on
  the start page and \<open>/article/y\<close> later, on page \<open>/a\<close>; where the set iterates
  \<open>/article/y\<close> first, the returned list starts with it.
\<close>

theorem discovery_order_counterexample:
  "map_option article_urls (discover_frontier (site_env small_site y_first) ''http://s.com/'' 2 10)
     = Some [''http://s.com/article/x'', ''http://s.com/article/y'']
   \<and> discover_all_links (site_env small_site y_first) ''http://s.com/'' 2 10
     = Some [''http://s.com/article/y'', ''http://s.com/article/x'']"
  by (simp add: small_site_run small_site_result small_end_def)

text \<open>
  Claim C3, amended. Discovery returns exactly the collected article URLs, each once, in the
  iteration order of the accumulator set (any order of them); the truncation to the article
  budget removes nothing, since the accumulator never holds more than the budget.
\<close>

theorem discover_all_links_returns_accumulator:
  assumes "discover_frontier E start_url max_pages max_articles = Some st"
  shows "\<exists>urls. discover_all_links E start_url max_pages max_articles = Some urls
               \<and> mset urls = mset (article_urls st) \<and> distinct urls"
proof -
  from assms obtain domain
    where "st \<in> set (discover_states E domain max_pages max_articles (start_frontier start_url))"
    by (rule discover_frontier_final)
  with bounded_states have "bounded max_pages max_articles st" by blast
  then have "distinct (article_urls st)" by (simp add: bounded_def)
  with discover_all_links_result [OF assms] show ?thesis
    by (simp add: mset_list_of_set distinct_list_of_set)
qed

text \<open>
  The run of \<open>small_site\<close> satisfies the hypothesis of the amended C3.
\<close>

theorem discover_all_links_returns_accumulator_witness:
  "discover_frontier (site_env small_site y_first) ''http://s.com/'' 2 10 = Some small_end
   \<and> (\<exists>urls. discover_all_links (site_env small_site y_first) ''http://s.com/'' 2 10 = Some urls
              \<and> mset urls = mset (article_urls small_end) \<and> distinct urls)"
  using discover_all_links_returns_accumulator [OF small_site_run] small_site_run by blast

text \<open>
  Claim C4 says that each URL is appended to the queue at most once, even when it is found
  on several pages before it is dequeued. The loop tests only \<open>link not in visited\<close>
  before \<open>queue.append(link)\<close>. On \<open>small_site\<close> the start page and page \<open>/a\<close> both
  link to \<open>/b\<close>, and after these two pages the queue holds \<open>/b\<close> twice.
\<close>

theorem enqueued_once_counterexample:
  "map_option queue (discover_frontier (site_env small_site y_first) ''http://s.com/'' 2 10)
     = Some [''http://s.com/b'', ''http://s.com/article/x'', ''http://s.com/article/y'',
             ''http://s.com/b'']"
  by (simp add: small_site_run small_end_def)

text \<open>
  Claim C4, amended. A URL can be appended to the queue once for every page on which it is
  found while it is not yet visited, and never once it is visited: the link loop appends
  nothing but the link at hand, and only when it is not in the visited set. Each URL is
  still visited and requested at most once: in every state of a run the visited URLs are
  distinct and are exactly the URLs requested, in the same order.
\<close>

theorem each_url_visited_once:
  "(\<forall>s \<in> set (discover_states E domain max_pages max_articles (start_frontier start_url)).
      distinct (visited s) \<and> requested s = visited s)
   \<and> (queue (fst (process_link E domain max_articles st link)) = queue st
      \<or> (queue (fst (process_link E domain max_articles st link)) = queue st @ [link]
          \<and> link \<notin> set (visited st)))"
proof -
  have "\<forall>s \<in> set (discover_states E domain max_pages max_articles (start_frontier start_url)).
          distinct (visited s) \<and> requested s = visited s"
    using bounded_states [of E domain max_pages max_articles start_url]
    by (simp add: bounded_def)
  moreover have "queue (fst (process_link E domain max_articles st link)) = queue st
      \<or> (queue (fst (process_link E domain max_articles st link)) = queue st @ [link]
          \<and> link \<notin> set (visited st))"
    using process_link_queue [of E domain max_articles st link] by blast
  ultimately show ?thesis by blast
qed

text \<open>
  On the run of \<open>small_site\<close>: the final state is a state of the run, and the link loop
  there appends the unvisited \<open>/b\<close>.
\<close>

theorem each_url_visited_once_witness:
  "small_end \<in> set (discover_states (site_env small_site y_first) ''s.com'' 2 10
                      (start_frontier ''http://s.com/''))
   \<and> distinct (visited small_end) \<and> requested small_end = visited small_end
   \<and> ''http://s.com/b'' \<notin> set (visited small_end)
   \<and> queue (fst (process_link (site_env small_site y_first) ''s.com'' 10 small_end ''http://s.com/b''))
       = queue small_end @ [''http://s.com/b'']"
proof -
  have q: "queue (fst (process_link (site_env small_site y_first) ''s.com'' 10 small_end
                         ''http://s.com/b'')) \<noteq> queue small_end"
    by (simp add: process_link_def site_env_fields class_b small_end_def)
  note t = each_url_visited_once [where E = "site_env small_site y_first" and domain = "''s.com''"
         and max_pages = 2 and max_articles = 10 and start_url = "''http://s.com/''"
         and st = small_end and link = "''http://s.com/b''"]
  from t have "\<forall>s \<in> set (discover_states (site_env small_site y_first) ''s.com'' 2 10
                      (start_frontier ''http://s.com/'')). distinct (visited s) \<and> requested s = visited s"
    by (rule conjunct1)
  from this small_end_reached
  have d: "distinct (visited small_end) \<and> requested small_end = visited small_end"
    by (rule bspec)
  from t q have "queue (fst (process_link (site_env small_site y_first) ''s.com'' 10 small_end
                         ''http://s.com/b'')) = queue small_end @ [''http://s.com/b'']
                 \<and> ''http://s.com/b'' \<notin> set (visited small_end)"
    by simp
  with d small_end_reached show ?thesis by simp
qed

text \<open>
  Claim C5 says that a discovered link that matches a hard-exclusion pattern is never added
  to the visited set and never fetched. The start URL is queued, visited and fetched without
  being classified. On \<open>author_site\<close> the start URL is an author page that links to
  itself: the link is discovered, it is hard-excluded, and it is in the visited set and
  among the requests.
\<close>

theorem hard_excluded_start_counterexample:
  "hard_excluded ''http://s.com/author/ann''
   \<and> requests_get (site_env author_site (\<lambda>xs. 0)) ''http://s.com/author/ann''
       = Some \<lparr>status_code = 200, body_text = render [''/author/ann'', ''/a'']\<rparr>
   \<and> extract_article_links (site_env author_site (\<lambda>xs. 0)) (render [''/author/ann'', ''/a''])
        ''http://s.com/author/ann'' = Some [''http://s.com/author/ann'', ''http://s.com/a'']
   \<and> discover_frontier (site_env author_site (\<lambda>xs. 0)) ''http://s.com/author/ann'' 1 10
       = Some \<lparr>visited = [''http://s.com/author/ann''], queue = [''http://s.com/a''],
               article_urls = [], requested = [''http://s.com/author/ann'']\<rparr>"
proof -
  have "requests_get (site_env author_site (\<lambda>xs. 0)) ''http://s.com/author/ann''
          = Some \<lparr>status_code = 200, body_text = render [''/author/ann'', ''/a'']\<rparr>"
    by (simp add: site_env_fields author_site_def)
  then show ?thesis
    by (simp add: class_author author_site_links author_site_run)
qed

text \<open>
  Claim C5, amended. A link that matches a hard-exclusion pattern is never appended to the
  queue: the link loop leaves the whole state as it is. In every state of a run, every URL
  in the queue, in the visited set or among the requests is the start URL or matches no
  hard-exclusion pattern; so a hard-excluded link other than the start URL is never queued,
  never visited and never fetched.
\<close>

theorem hard_excluded_never_queued:
  "(\<forall>s \<in> set (discover_states E domain max_pages max_articles (start_frontier start_url)).
      \<forall>u \<in> set (queue s) \<union> set (visited s) \<union> set (requested s).
        u = start_url \<or> \<not> hard_excluded u)
   \<and> (hard_excluded link \<longrightarrow> fst (process_link E domain max_articles st link) = st)"
proof -
  have "\<forall>s \<in> set (discover_states E domain max_pages max_articles (start_frontier start_url)).
          \<forall>u \<in> set (queue s) \<union> set (visited s) \<union> set (requested s).
            u = start_url \<or> \<not> hard_excluded u"
  proof
    fix s
    assume s: "s \<in> set (discover_states E domain max_pages max_articles (start_frontier start_url))"
    with admissible_states have a: "admissible start_url s" by blast
    from s bounded_states have "bounded max_pages max_articles s" by blast
    then have "requested s = visited s" by (simp add: bounded_def)
    with a show "\<forall>u \<in> set (queue s) \<union> set (visited s) \<union> set (requested s).
                   u = start_url \<or> \<not> hard_excluded u"
      by (auto simp: admissible_def)
  qed
  then show ?thesis
    by (simp add: process_link_hard_excluded)
qed

text \<open>
  On the run of \<open>small_site\<close>: \<open>/b\<close> is queued in the final state and is not
  hard-excluded; \<open>/page/2\<close> is, and the link loop ignores it.
\<close>

theorem hard_excluded_never_queued_witness:
  "small_end \<in> set (discover_states (site_env small_site y_first) ''s.com'' 2 10
                      (start_frontier ''http://s.com/''))
   \<and> ''http://s.com/b'' \<in> set (queue small_end)
   \<and> \<not> hard_excluded ''http://s.com/b''
   \<and> hard_excluded ''http://s.com/page/2''
   \<and> fst (process_link (site_env small_site y_first) ''s.com'' 10 small_end ''http://s.com/page/2'')
       = small_end"
proof -
  have m: "''http://s.com/b'' \<in> set (queue small_end)"
    and n: "''http://s.com/b'' \<noteq> ''http://s.com/''"
    by (simp_all add: small_end_def)
  have h: "hard_excluded ''http://s.com/page/2''"
    by (simp add: class_page)
  note t = hard_excluded_never_queued [where E = "site_env small_site y_first" and domain = "''s.com''"
         and max_pages = 2 and max_articles = 10 and start_url = "''http://s.com/''"
         and st = small_end and link = "''http://s.com/page/2''"]
  from t have "\<forall>s \<in> set (discover_states (site_env small_site y_first) ''s.com'' 2 10
                      (start_frontier ''http://s.com/'')).
                 \<forall>u \<in> set (queue s) \<union> set (visited s) \<union> set (requested s).
                   u = ''http://s.com/'' \<or> \<not> hard_excluded u"
    by (rule conjunct1)
  from this small_end_reached
  have "\<forall>u \<in> set (queue small_end) \<union> set (visited small_end) \<union> set (requested small_end).
           u = ''http://s.com/'' \<or> \<not> hard_excluded u"
    by (rule bspec)
  moreover from m have "''http://s.com/b'' \<in> set (queue small_end) \<union> set (visited small_end)
                          \<union> set (requested small_end)"
    by simp
  ultimately have "''http://s.com/b'' = ''http://s.com/'' \<or> \<not> hard_excluded ''http://s.com/b''"
    by (rule bspec)
  with n have nb: "\<not> hard_excluded ''http://s.com/b''" by simp
  from t h have "fst (process_link (site_env small_site y_first) ''s.com'' 10 small_end
                        ''http://s.com/page/2'') = small_end"
    by simp
  with nb m h small_end_reached show ?thesis by simp
qed

text \<open>
  Claim C6 says that every discovered link that matches a soft-exclusion pattern and no
  hard-exclusion pattern is enqueued when it is not yet visited. The link loop stops at
  once when the article budget is reached. On \<open>budget_site\<close>, with a budget of one
  article, the start page links to \<open>/article/x\<close> and then to \<open>/news\<close>: the loop
  stops after the article, and \<open>/news\<close> is in no queue of the run.
\<close>

theorem section_link_after_hard_stop_counterexample:
  "soft_excluded ''http://s.com/news'' \<and> \<not> hard_excluded ''http://s.com/news''
   \<and> netloc (site_env budget_site (\<lambda>xs. 0)) ''http://s.com/'' = Some ''s.com''
   \<and> requests_get (site_env budget_site (\<lambda>xs. 0)) ''http://s.com/''
       = Some \<lparr>status_code = 200, body_text = render [''/article/x'', ''/news'']\<rparr>
   \<and> extract_article_links (site_env budget_site (\<lambda>xs. 0)) (render [''/article/x'', ''/news''])
        ''http://s.com/'' = Some [''http://s.com/article/x'', ''http://s.com/news'']
   \<and> discover_states (site_env budget_site (\<lambda>xs. 0)) ''s.com'' 500 1 (start_frontier ''http://s.com/'')
       = [start_frontier ''http://s.com/'',
          \<lparr>visited = [''http://s.com/''], queue = [''http://s.com/article/x''],
            article_urls = [''http://s.com/article/x''], requested = [''http://s.com/'']\<rparr>]"
proof -
  have "requests_get (site_env budget_site (\<lambda>xs. 0)) ''http://s.com/''
          = Some \<lparr>status_code = 200, body_text = render [''/article/x'', ''/news'']\<rparr>"
    by (simp add: site_env_fields budget_site_def)
  then show ?thesis
    by (simp add: class_news budget_site_links budget_site_states site_env_fields)
qed

text \<open>
  Claim C6, amended. When the link loop reaches a same-site link that matches a
  soft-exclusion pattern and no hard-exclusion pattern, it appends the link to the queue
  unless the link is already visited, changes nothing else, and goes on to the next link.
  (A link that the loop does not reach, because the article budget ended the loop first, is
  not enqueued.) No URL that matches a soft-exclusion pattern is ever in the article
  accumulator, nor in the list that discovery returns.
\<close>

theorem section_pages_enqueued_not_collected:
  "(soft_excluded link \<and> \<not> hard_excluded link \<and> netloc E link = Some domain \<longrightarrow>
      process_link E domain max_articles st link =
        (if link \<in> set (visited st) then st else st\<lparr>queue := queue st @ [link]\<rparr>, Next))
   \<and> (\<forall>s \<in> set (discover_states E domain max_pages max_articles (start_frontier start_url)).
        \<forall>u \<in> set (article_urls s). \<not> soft_excluded u)
   \<and> (\<forall>urls. discover_all_links E start_url max_pages max_articles = Some urls \<longrightarrow>
        (\<forall>u \<in> set urls. \<not> soft_excluded u))"
proof -
  have a: "\<forall>s \<in> set (discover_states E d max_pages max_articles (start_frontier start_url)).
          \<forall>u \<in> set (article_urls s). \<not> soft_excluded u" for d
    using only_articles_states [of E d max_pages max_articles start_url]
    by (simp add: only_articles_def)
  have b: "\<forall>u \<in> set urls. \<not> soft_excluded u"
    if r: "discover_all_links E start_url max_pages max_articles = Some urls" for urls
  proof -
    from r obtain st where f: "discover_frontier E start_url max_pages max_articles = Some st"
      by (auto simp: discover_all_links_def split: Option.bind_splits)
    then obtain d
      where "st \<in> set (discover_states E d max_pages max_articles (start_frontier start_url))"
      by (rule discover_frontier_final)
    with a have "\<forall>u \<in> set (article_urls st). \<not> soft_excluded u" by blast
    with discover_all_links_result [OF f] r show ?thesis
      by (simp add: set_list_of_set)
  qed
  from a b process_link_section [of link E domain max_articles st] show ?thesis
    by blast
qed

text \<open>
  On \<open>small_site\<close>: the link loop enqueues \<open>/news\<close>, and the collected articles
  match no soft-exclusion pattern.
\<close>

theorem section_pages_enqueued_not_collected_witness:
  "soft_excluded ''http://s.com/news'' \<and> \<not> hard_excluded ''http://s.com/news''
   \<and> netloc (site_env small_site y_first) ''http://s.com/news'' = Some ''s.com''
   \<and> process_link (site_env small_site y_first) ''s.com'' 10 small_end ''http://s.com/news''
       = (small_end\<lparr>queue := queue small_end @ [''http://s.com/news'']\<rparr>, Next)
   \<and> small_end \<in> set (discover_states (site_env small_site y_first) ''s.com'' 2 10
                        (start_frontier ''http://s.com/''))
   \<and> ''http://s.com/article/x'' \<in> set (article_urls small_end)
   \<and> \<not> soft_excluded ''http://s.com/article/x''
   \<and> discover_all_links (site_env small_site y_first) ''http://s.com/'' 2 10
       = Some [''http://s.com/article/y'', ''http://s.com/article/x'']
   \<and> \<not> soft_excluded ''http://s.com/article/y''"
proof -
  have c: "soft_excluded ''http://s.com/news''" "\<not> hard_excluded ''http://s.com/news''"
    "netloc (site_env small_site y_first) ''http://s.com/news'' = Some ''s.com''"
    by (simp_all add: class_news site_env_fields)
  have v: "''http://s.com/news'' \<notin> set (visited small_end)"
    and a: "''http://s.com/article/x'' \<in> set (article_urls small_end)"
    by (simp_all add: small_end_def)
  note t = section_pages_enqueued_not_collected [where E = "site_env small_site y_first"
         and domain = "''s.com''" and max_pages = 2 and max_articles = 10
         and start_url = "''http://s.com/''" and st = small_end and link = "''http://s.com/news''"]
  from t c v
  have p: "process_link (site_env small_site y_first) ''s.com'' 10 small_end ''http://s.com/news''
             = (small_end\<lparr>queue := queue small_end @ [''http://s.com/news'']\<rparr>, Next)"
    by simp
  from t have "\<forall>s \<in> set (discover_states (site_env small_site y_first) ''s.com'' 2 10
                      (start_frontier ''http://s.com/'')).
                 \<forall>u \<in> set (article_urls s). \<not> soft_excluded u"
    by simp
  from this small_end_reached
  have "\<forall>u \<in> set (article_urls small_end). \<not> soft_excluded u"
    by (rule bspec)
  from this a have nx: "\<not> soft_excluded ''http://s.com/article/x''"
    by (rule bspec)
  from t small_site_result
  have "\<forall>u \<in> set [''http://s.com/article/y'', ''http://s.com/article/x'']. \<not> soft_excluded u"
    by simp
  then have ny: "\<not> soft_excluded ''http://s.com/article/y''"
    by simp
  from c p small_end_reached a nx ny small_site_result show ?thesis
    by simp
qed


section \<open>Properties of link extraction\<close>

lemma startswith_map: "startswith s p \<Longrightarrow> startswith (map f s) (map f p)"
  by (induction s p rule: startswith.induct) auto

lemma contains_map: "contains s sub \<Longrightarrow> contains (map f s) (map f sub)"
proof (induction s)
  case Nil
  then show ?case by simp
next
  case (Cons c cs)
  then show ?case
    using startswith_map [of "c # cs" sub f] by auto
qed

lemma lower_link_denylist: "x \<in> set link_denylist \<Longrightarrow> lower x = x"
  by (auto simp: link_denylist_def lower_def lower_char_ascii)

lemma contains_lower_denylist:
  assumes "x \<in> set link_denylist" and "contains u x"
  shows "contains (lower u) x"
  using contains_map [OF assms(2), of lower_char] lower_link_denylist [OF assms(1)]
  by (simp add: lower_def)

definition resolved_link :: "('t, 'n) env \<Rightarrow> 't \<Rightarrow> 'n list \<Rightarrow> string \<Rightarrow> string \<Rightarrow> bool" where
  \<comment> \<open>\<open>u\<close> is the \<open>href\<close> of one of the anchors, resolved against the page URL, on the page's
      host and clear of the denylist\<close>
  "resolved_link E tree anchors base_url u =
     ((\<exists>a \<in> set anchors. \<exists>href. dict_get (attributes E tree a) ''href'' = Some href \<and> href \<noteq> []
          \<and> urljoin E base_url href = Some u)
      \<and> (\<exists>n. netloc E u = Some n \<and> netloc E base_url = Some n)
      \<and> (\<forall>x \<in> set link_denylist. \<not> contains (lower u) x \<and> \<not> contains u x))"

lemma resolved_link_more:
  "resolved_link E tree anchors base_url u \<Longrightarrow> resolved_link E tree (a # anchors) base_url u"
  by (auto simp: resolved_link_def)

lemma collect_links_resolved:
  assumes "collect_links E tree base_url anchors links = Some res"
    and "distinct links"
    and "\<forall>u \<in> set links. resolved_link E tree all base_url u"
    and "set anchors \<subseteq> set all"
  shows "distinct res \<and> (\<forall>u \<in> set res. resolved_link E tree all base_url u)"
  using assms
proof (induction anchors arbitrary: links)
  case Nil
  then show ?case by simp
next
  case (Cons a anchors)
  from Cons.prems(4) have sub: "set anchors \<subseteq> set all" and a: "a \<in> set all" by auto
  show ?case
  proof (cases "dict_get (attributes E tree a) ''href''")
    case None
    with Cons.prems(1) have "collect_links E tree base_url anchors links = Some res" by simp
    from Cons.IH [OF this Cons.prems(2,3) sub] show ?thesis .
  next
    case (Some href)
    show ?thesis
    proof (cases "href = []")
      case True
      with Some Cons.prems(1) have "collect_links E tree base_url anchors links = Some res" by simp
      from Cons.IH [OF this Cons.prems(2,3) sub] show ?thesis .
    next
      case False
      with Some Cons.prems(1) obtain url where url: "urljoin E base_url href = Some url"
        by (auto split: Option.bind_splits)
      show ?thesis
      proof (cases "\<exists>x \<in> set link_denylist. contains (lower url) x")
        case True
        with Some False url Cons.prems(1)
        have "collect_links E tree base_url anchors links = Some res" by simp
        from Cons.IH [OF this Cons.prems(2,3) sub] show ?thesis .
      next
        case clear: False
        with Some False url Cons.prems(1) obtain n1 n2
          where n: "netloc E url = Some n1" "netloc E base_url = Some n2"
            and rest: "collect_links E tree base_url anchors
                         (if n1 = n2 then set_add url links else links) = Some res"
          by (auto split: Option.bind_splits)
        show ?thesis
        proof (cases "n1 = n2")
          case True
          have "resolved_link E tree all base_url url"
            unfolding resolved_link_def
            using a Some False url n True clear contains_lower_denylist by blast
          with Cons.prems(3)
          have r: "\<forall>u \<in> set (set_add url links). resolved_link E tree all base_url u"
            by (simp add: set_add_set)
          from rest True
          have "collect_links E tree base_url anchors (set_add url links) = Some res" by simp
          from Cons.IH [OF this set_add_distinct [OF Cons.prems(2)] r sub] show ?thesis .
        next
          case False
          with rest have "collect_links E tree base_url anchors links = Some res" by simp
          from Cons.IH [OF this Cons.prems(2,3) sub] show ?thesis .
        qed
      qed
    qed
  qed
qed

text \<open>
  A page whose anchors point to a page of the site (twice), to a page on the denylist, to
  another host, nowhere (an empty \<open>href\<close>) and to an image.
\<close>

definition links_page :: "string list" where
  "links_page = [''/a'', ''/about'', ''http://other.org/x'', [], ''/a'', ''/IMG.PNG'']"

lemma links_page_links:
  "extract_article_links (site_env [(''http://s.com/links'', links_page)] (\<lambda>xs. 0))
     (render links_page) ''http://s.com/links'' = Some [''http://s.com/a'']"
  by (simp add: run_eval links_page_def)

text \<open>
  A URL is absolute when \<open>urlparse\<close> finds a scheme and a host in it.
\<close>

definition absolute :: "('t, 'n) env \<Rightarrow> string \<Rightarrow> bool" where
  \<comment> \<open>the URL has a scheme and a host, as \<open>urlparse\<close> reads it\<close>
  "absolute E u =
     (case url_scheme E u of
        None \<Rightarrow> False
      | Some s \<Rightarrow> s \<noteq> [] \<and> (case netloc E u of None \<Rightarrow> False | Some host \<Rightarrow> host \<noteq> []))"

text \<open>
  In the environments built by \<open>site_env\<close>, what \<open>urljoin\<close> returns has a scheme.
\<close>

lemma site_env_urljoin_scheme:
  "\<forall>href u. urljoin (site_env site order) base href = Some u
      \<longrightarrow> (\<exists>s. url_scheme (site_env site order) u = Some s \<and> s \<noteq> [])"
  by (auto simp: site_env_fields)

text \<open>
  Claim C10. For every page body and page URL, the links that \<open>extract_article_links\<close>
  returns are all different; each is the \<open>href\<close> of an anchor of the page, resolved against
  the page URL by \<open>urljoin\<close>; its host is the host of the page URL; and neither it nor its
  lower-case form contains an entry of the denylist. For a fetched page, whose URL has the
  scheme \<open>http\<close> or \<open>https\<close> and a host, every returned link is absolute: it has the page's
  host, which is not empty, and a scheme, since \<open>urljoin\<close> against such a page URL returns a
  URL with a scheme. (That last fact is one of the library \<open>urllib.parse\<close>, which the model
  takes from the environment, so it is stated as a condition on the environment.)
\<close>

theorem extract_article_links_absolute_same_site:
  assumes "extract_article_links E html base_url = Some links"
  shows "distinct links
       \<and> (\<forall>u \<in> set links.
             (\<exists>n. netloc E u = Some n \<and> netloc E base_url = Some n)
           \<and> (\<forall>x \<in> set link_denylist. \<not> contains (lower u) x \<and> \<not> contains u x)
           \<and> (\<exists>tree anchors. HTMLParser E html = Some tree \<and> css E tree ''a'' = Some anchors
                \<and> (\<exists>a \<in> set anchors. \<exists>href.
                      dict_get (attributes E tree a) ''href'' = Some href \<and> href \<noteq> []
                      \<and> urljoin E base_url href = Some u)))
       \<and> ((url_scheme E base_url = Some ''http'' \<or> url_scheme E base_url = Some ''https'')
            \<and> (\<exists>host. netloc E base_url = Some host \<and> host \<noteq> [])
            \<and> (\<forall>href u. urljoin E base_url href = Some u
                   \<longrightarrow> (\<exists>s. url_scheme E u = Some s \<and> s \<noteq> []))
          \<longrightarrow> (\<forall>u \<in> set links. absolute E u))"
proof -
  from assms obtain tree anchors found
    where t: "HTMLParser E html = Some tree" and a: "css E tree ''a'' = Some anchors"
      and c: "collect_links E tree base_url anchors [] = Some found"
      and l: "links = list_of_set (pick E) found"
    by (auto simp: extract_article_links_def split: Option.bind_splits)
  from collect_links_resolved [OF c, of anchors]
  have "distinct found \<and> (\<forall>u \<in> set found. resolved_link E tree anchors base_url u)"
    by simp
  with l have d: "distinct links"
    and r: "\<forall>u \<in> set links. resolved_link E tree anchors base_url u"
    by (simp_all add: distinct_list_of_set set_list_of_set)
  have each: "(\<exists>n. netloc E u = Some n \<and> netloc E base_url = Some n)
           \<and> (\<forall>x \<in> set link_denylist. \<not> contains (lower u) x \<and> \<not> contains u x)
           \<and> (\<exists>tree anchors. HTMLParser E html = Some tree \<and> css E tree ''a'' = Some anchors
                \<and> (\<exists>a \<in> set anchors. \<exists>href.
                      dict_get (attributes E tree a) ''href'' = Some href \<and> href \<noteq> []
                      \<and> urljoin E base_url href = Some u))"
    if "u \<in> set links" for u
  proof -
    from r that have "resolved_link E tree anchors base_url u" by blast
    with t a show ?thesis
      unfolding resolved_link_def by blast
  qed
  have abs: "absolute E u"
    if page: "\<exists>host. netloc E base_url = Some host \<and> host \<noteq> []"
      and law: "\<forall>href u. urljoin E base_url href = Some u
                  \<longrightarrow> (\<exists>s. url_scheme E u = Some s \<and> s \<noteq> [])"
      and u: "u \<in> set links" for u
  proof -
    from r u have res: "resolved_link E tree anchors base_url u" by blast
    then obtain href where "urljoin E base_url href = Some u"
      unfolding resolved_link_def by blast
    with law obtain s where s: "url_scheme E u = Some s" "s \<noteq> []" by blast
    from res obtain n where n: "netloc E u = Some n" "netloc E base_url = Some n"
      unfolding resolved_link_def by blast
    with page have "n \<noteq> []" by auto
    with s n show ?thesis by (simp add: absolute_def)
  qed
  from d each abs show ?thesis by blast
qed

text \<open>
  Of the six anchors of \<open>links_page\<close>, one link is returned, and it is absolute.
\<close>

theorem extract_article_links_absolute_same_site_witness:
  "extract_article_links (site_env [(''http://s.com/links'', links_page)] (\<lambda>xs. 0))
     (render links_page) ''http://s.com/links'' = Some [''http://s.com/a'']
   \<and> url_scheme (site_env [(''http://s.com/links'', links_page)] (\<lambda>xs. 0)) ''http://s.com/links''
       = Some ''http''
   \<and> netloc (site_env [(''http://s.com/links'', links_page)] (\<lambda>xs. 0)) ''http://s.com/links''
       = Some ''s.com''
   \<and> netloc (site_env [(''http://s.com/links'', links_page)] (\<lambda>xs. 0)) ''http://s.com/a''
       = Some ''s.com''
   \<and> absolute (site_env [(''http://s.com/links'', links_page)] (\<lambda>xs. 0)) ''http://s.com/a''
   \<and> \<not> contains ''http://s.com/a'' ''about''"
proof -
  let ?E = "site_env [(''http://s.com/links'', links_page)] (\<lambda>xs. 0)"
  note t = extract_article_links_absolute_same_site [OF links_page_links]
  have page: "url_scheme ?E ''http://s.com/links'' = Some ''http''"
    "netloc ?E ''http://s.com/links'' = Some ''s.com''"
    by (simp_all add: site_env_fields)
  from t have "(url_scheme ?E ''http://s.com/links'' = Some ''http''
                  \<or> url_scheme ?E ''http://s.com/links'' = Some ''https'')
            \<and> (\<exists>host. netloc ?E ''http://s.com/links'' = Some host \<and> host \<noteq> [])
            \<and> (\<forall>href u. urljoin ?E ''http://s.com/links'' href = Some u
                   \<longrightarrow> (\<exists>s. url_scheme ?E u = Some s \<and> s \<noteq> []))
          \<longrightarrow> (\<forall>u \<in> set [''http://s.com/a'']. absolute ?E u)"
    by (rule conjunct2 [THEN conjunct2])
  with page site_env_urljoin_scheme [of "[(''http://s.com/links'', links_page)]" "\<lambda>xs. 0"
         "''http://s.com/links''"]
  have ab: "absolute ?E ''http://s.com/a''"
    by simp
  from t have "\<forall>x \<in> set link_denylist. \<not> contains (lower ''http://s.com/a'') x
                \<and> \<not> contains ''http://s.com/a'' x"
    by simp
  moreover have "''about'' \<in> set link_denylist"
    by (simp add: link_denylist_def)
  ultimately have "\<not> contains (lower ''http://s.com/a'') ''about''
                     \<and> \<not> contains ''http://s.com/a'' ''about''"
    by (rule bspec)
  with ab show ?thesis
    by (simp add: links_page_links site_env_fields)
qed


section \<open>Substitution\<close>

text \<open>
  \<open>re.sub(pattern, repl, s)\<close> for a replacement without group references: from left to
  right, the match found at a position is replaced and the scan goes on behind it; where
  nothing matches, the character is kept. No pattern of the program matches the empty
  string; on an empty match the replacement is inserted and the scan moves on by one
  character.
\<close>

fun sub_from :: "re_flags \<Rightarrow> pattern \<Rightarrow> string \<Rightarrow> char option \<Rightarrow> string \<Rightarrow> string" where
  "sub_from f p repl prev [] = (case match_at f p prev [] of None \<Rightarrow> [] | Some r \<Rightarrow> repl)"
| "sub_from f p repl prev (c # cs) =
     (case match_at f p prev (c # cs) of
        None \<Rightarrow> c # sub_from f p repl (Some c) cs
      | Some r \<Rightarrow>
          if length r < length (c # cs)
          then repl @ sub_from f p repl (Some (last (take (length (c # cs) - length r) (c # cs)))) r
          else repl @ c # sub_from f p repl (Some c) cs)"

definition re_sub :: "pattern \<Rightarrow> string \<Rightarrow> string \<Rightarrow> re_flags \<Rightarrow> string" where
  \<comment> \<open>\<open>re.sub(pattern, repl, s, flags=flags)\<close>\<close>
  "re_sub p repl s f = sub_from f p repl None s"

definition any_char :: rx where
  \<comment> \<open>\<open>[\s\S]\<close>\<close>
  "any_char = OneOf [Space, NotSpace]"

definition element_pattern :: "string \<Rightarrow> pattern" where
  \<comment> \<open>\<open><name[\s\S]*?</name>\<close>\<close>
  "element_pattern name =
     unanchored (seqs [lit ''<'', lit name, LazyStar any_char, lit ''</'', lit name, lit ''>''])"

definition comment_pattern :: pattern where
  \<comment> \<open>\<open><!--.*?-->\<close>\<close>
  "comment_pattern = unanchored (seqs [lit ''<!--'', LazyStar Dot, lit ''-->''])"

definition whitespace_pattern :: pattern where
  \<comment> \<open>\<open>\s+\<close>\<close>
  "whitespace_pattern = unanchored (plus (One Space))"

definition tag_pattern :: pattern where
  \<comment> \<open>\<open><[^>]+>\<close>\<close>
  "tag_pattern = unanchored (seqs [lit ''<'', plus (NoneOf [Lit (CHR ''>'')]), lit ''>''])"

definition img_pattern :: pattern where
  \<comment> \<open>\<open><img[\s\S]*?>\<close>\<close>
  "img_pattern = unanchored (seqs [lit ''<img'', LazyStar any_char, lit ''>''])"

definition blank_lines_pattern :: pattern where
  \<comment> \<open>\<open>\n\s*\n\s*\n+\<close>\<close>
  "blank_lines_pattern =
     unanchored (seqs [One (Lit newline), Star (One Space), One (Lit newline), Star (One Space),
                       plus (One (Lit newline))])"


section \<open>Cleaning with the text-generation service\<close>

function chunk_loop :: "string \<Rightarrow> nat \<Rightarrow> nat \<Rightarrow> string list" where
  \<comment> \<open>the \<open>while\<close> loop of \<open>chunk_text\<close> from \<open>start\<close> on, for \<open>max_len = Suc k\<close>: the chunks
      it appends\<close>
  "chunk_loop text k start =
     (if start < length text
      then take (Suc k) (drop start text) # chunk_loop text k (start + Suc k)
      else [])"
  by pat_completeness auto
termination
  by (relation "measure (\<lambda>(text, k, start). length text - start)") auto

declare chunk_loop.simps [simp del]

definition chunk_text :: "string \<Rightarrow> nat \<Rightarrow> string list option" where
  \<comment> \<open>with \<open>max_len = 0\<close> the loop does not advance: on a non-empty text it never returns\<close>
  "chunk_text text max_len =
     (case max_len of
        0 \<Rightarrow> if text = [] then Some [] else None
      | Suc k \<Rightarrow> Some (chunk_loop text k 0))"

definition html_preclean :: "string \<Rightarrow> string" where
  "html_preclean html =
     (let html = re_sub (element_pattern ''script'') '' '' html re_I;
          html = re_sub (element_pattern ''style'') '' '' html re_I;
          html = re_sub comment_pattern '' '' html re_S;
          html = re_sub whitespace_pattern '' '' html no_flags
      in strip html)"

definition apostrophe :: rx where
  "apostrophe = One (Lit (CHR 0x27))"

definition lazy_dots :: rx where
  \<comment> \<open>\<open>.*?\<close>\<close>
  "lazy_dots = LazyStar Dot"

definition preambles :: "pattern list" where
  "preambles = map from_start [
     seqs [lazy_dots, lit ''Here'', opt apostrophe, opt (lit ''s''), lit '' the cleaned '',
           alts [lit ''text'', lit ''article'', lit ''content''], lazy_dots, One (Lit newline)],
     seqs [lazy_dots, lit ''I'', opt apostrophe, lit ''ve '',
           alts [lit ''cleaned'', lit ''removed'', lit ''extracted''], lazy_dots, One (Lit newline)],
     seqs [lazy_dots, lit ''adhering to '', opt (lit ''your ''), lit ''specifications'',
           lazy_dots, One (Lit newline)],
     seqs [lazy_dots, lit ''As requested'', lazy_dots, One (Lit newline)],
     seqs [lazy_dots, lit ''Following '', opt (lit ''your ''), lit ''instructions'',
           lazy_dots, One (Lit newline)],
     seqs [lit ''Read the '', lazy_dots, One (Lit newline)]
   ]"

definition trailer :: "rx \<Rightarrow> pattern" where
  \<comment> \<open>\<open>\n\s*\<close>, the given words, \<open>.*$\<close>\<close>
  "trailer r = to_end (seqs [One (Lit newline), Star (One Space), r, Star Dot])"

definition tags_pattern :: pattern where
  \<comment> \<open>\<open>\n\s*TAGS?:\s*.*$\<close>\<close>
  "tags_pattern = trailer (seqs [lit ''TAG'', opt (lit ''S''), lit '':'', Star (One Space)])"

definition postambles :: "pattern list" where
  "postambles = [
     trailer (lit ''I hope this helps''),
     trailer (lit ''Let me know if''),
     trailer (lit ''Please note''),
     trailer (lit ''Note:'')
   ]"

definition clean_llm_artifacts :: "string \<Rightarrow> string" where
  "clean_llm_artifacts text =
     (let text = fold (\<lambda>pattern text. re_sub pattern '''' text re_IM) preambles text;
          text = re_sub tags_pattern '''' text re_IS;
          text = fold (\<lambda>pattern text. re_sub pattern '''' text re_IS) postambles text
      in strip text)"


section \<open>Content extraction\<close>

definition JUNK_SELECTORS :: "string list" where
  "JUNK_SELECTORS = [
     ''head'', ''script'', ''style'', ''nav'', ''header'', ''footer'',
     ''iframe'', ''noscript'', ''svg'', ''link'', ''meta'',
     ''img'', ''picture'', ''figure'', ''figcaption'',
     ''button'', ''form'', ''input'', ''textarea'',
     ''.header'', ''.footer'', ''.sidebar'', ''.nav'', ''.menu'',
     ''.advertisement'', ''.ad'', ''.ads'', ''.sponsor'',
     ''.share'', ''.social'', ''.comments'', ''.related'',
     ''#header'', ''#footer'', ''#sidebar'', ''#nav'',
     ''[id*='google']'', ''[class*='google']'',
     ''[class*='share']'', ''[class*='social']'',
     ''[class*='comment']'', ''[class*='related']'',
     ''[class*='ad-']'', ''[id*='ad-']'',
     ''[class*='newsletter']'', ''[class*='subscribe']''
   ]"

definition article_selectors :: "string list" where
  "article_selectors = [
     ''article'',
     ''[class*='article-content']'',
     ''[class*='post-content']'',
     ''[class*='entry-content']'',
     ''[class*='story-content']'',
     ''[id*='article-content']'',
     ''[id*='post-content']'',
     ''.article-body'',
     ''.post-body'',
     ''main'',
     ''[role='main']'',
     ''#main-content'',
     ''.content''
   ]"

definition blank_line :: string where
  \<comment> \<open>the separator \<open>"\n\n"\<close>\<close>
  "blank_line = [newline, newline]"

fun basic_parts :: "('t, 'n) env \<Rightarrow> 't \<Rightarrow> 'n list \<Rightarrow> string list \<Rightarrow> string list option" where
  "basic_parts E tree [] parts = Some parts"
| "basic_parts E tree (node # nodes) parts = do {
     t \<leftarrow> node_text E tree node;
     basic_parts E tree nodes (if 10 < length t then parts @ [t] else parts)
   }"

definition strip_html_basic_body :: "('t, 'n) env \<Rightarrow> string \<Rightarrow> string option" where
  \<comment> \<open>the \<open>try\<close> block of \<open>strip_html_basic\<close>\<close>
  "strip_html_basic_body E html =
     (let html = re_sub (element_pattern ''head'') '''' html re_I;
          html = re_sub (element_pattern ''script'') '''' html re_I;
          html = re_sub (element_pattern ''style'') '''' html re_I;
          html = re_sub img_pattern '''' html re_I;
          html = re_sub comment_pattern '''' html re_S
      in do {
        tree \<leftarrow> HTMLParser E html;
        nodes \<leftarrow> css E tree ''p, li, h1, h2, h3, h4'';
        parts \<leftarrow> basic_parts E tree nodes [];
        Some (join blank_line parts)
      })"

definition strip_html_basic :: "('t, 'n) env \<Rightarrow> string \<Rightarrow> string option" where
  "strip_html_basic E html =
     (case strip_html_basic_body E html of Some text \<Rightarrow> Some text | None \<Rightarrow> Some [])"

fun decompose_all :: "('t, 'n) env \<Rightarrow> 't \<Rightarrow> 'n list \<Rightarrow> 't option" where
  "decompose_all E tree [] = Some tree"
| "decompose_all E tree (elem # elems) = do {
     tree' \<leftarrow> decompose E tree elem;
     decompose_all E tree' elems
   }"

fun remove_junk :: "('t, 'n) env \<Rightarrow> 't \<Rightarrow> string list \<Rightarrow> 't option" where
  "remove_junk E tree [] = Some tree"
| "remove_junk E tree (selector # selectors) = do {
     elems \<leftarrow> css E tree selector;
     tree' \<leftarrow> decompose_all E tree elems;
     remove_junk E tree' selectors
   }"

fun find_article :: "('t, 'n) env \<Rightarrow> 't \<Rightarrow> string list \<Rightarrow> 'n option option" where
  "find_article E tree [] = Some None"
| "find_article E tree (selector # selectors) = do {
     article \<leftarrow> css_first E tree selector;
     case article of
       Some a \<Rightarrow> Some (Some a)
     | None \<Rightarrow> find_article E tree selectors
   }"

definition extract_article_content_body :: "('t, 'n) env \<Rightarrow> string \<Rightarrow> string option" where
  \<comment> \<open>the \<open>try\<close> block of \<open>extract_article_content\<close>\<close>
  "extract_article_content_body E html = do {
     tree \<leftarrow> HTMLParser E html;
     tree \<leftarrow> remove_junk E tree JUNK_SELECTORS;
     article \<leftarrow> find_article E tree article_selectors;
     article \<leftarrow> (case article of Some a \<Rightarrow> Some (Some a) | None \<Rightarrow> css_first E tree ''body'');
     case article of
       None \<Rightarrow> strip_html_basic E html
     | Some a \<Rightarrow> do {
         article_html \<leftarrow> node_html E tree a;
         let article_html = re_sub (element_pattern ''script'') '''' article_html re_I;
             article_html = re_sub (element_pattern ''style'') '''' article_html re_I;
             article_html = re_sub comment_pattern '''' article_html re_S
         in Some (strip article_html)
       }
   }"

definition extract_article_content :: "('t, 'n) env \<Rightarrow> string \<Rightarrow> string option" where
  "extract_article_content E html =
     (case extract_article_content_body E html of
        Some text \<Rightarrow> Some text
      | None \<Rightarrow> strip_html_basic E html)"

subsection \<open>The answer of the text-generation service\<close>

definition py_get :: "json \<Rightarrow> string \<Rightarrow> json \<Rightarrow> json option" where
  \<comment> \<open>\<open>v.get(key, default)\<close>: only a dictionary has \<open>get\<close>\<close>
  "py_get v key dflt =
     (case v of
        JObj members \<Rightarrow> Some (case map_of members key of None \<Rightarrow> dflt | Some x \<Rightarrow> x)
      | _ \<Rightarrow> None)"

definition py_first :: "json \<Rightarrow> json option" where
  \<comment> \<open>\<open>v[0]\<close>: the first element of a list or character of a string; a dictionary decoded
      from JSON has no key \<open>0\<close>\<close>
  "py_first v =
     (case v of
        JArr (x # xs) \<Rightarrow> Some x
      | JStr (c # cs) \<Rightarrow> Some (JStr [c])
      | _ \<Rightarrow> None)"

definition py_strip :: "json \<Rightarrow> string option" where
  \<comment> \<open>\<open>v.strip()\<close>: only a string has \<open>strip\<close>\<close>
  "py_strip v = (case v of JStr s \<Rightarrow> Some (strip s) | _ \<Rightarrow> None)"

definition message_content :: "llm_response \<Rightarrow> string option" where
  \<comment> \<open>\<open>r.json().get("choices", [{}])[0].get("message", {}).get("content", "").strip()\<close>\<close>
  "message_content r = do {
     answer \<leftarrow> llm_json r;
     choices \<leftarrow> py_get answer ''choices'' (JArr [JObj []]);
     choice \<leftarrow> py_first choices;
     message \<leftarrow> py_get choice ''message'' (JObj []);
     content \<leftarrow> py_get message ''content'' (JStr []);
     py_strip content
   }"

subsection \<open>The two strategies\<close>

fun clean_chunks :: "('t, 'n) env \<Rightarrow> string list \<Rightarrow> string list \<Rightarrow> string list option" where
  \<comment> \<open>the loop over the chunks; \<open>outputs\<close> is the list built so far\<close>
  "clean_chunks E [] outputs = Some outputs"
| "clean_chunks E (chunk # chunks) outputs = do {
     r \<leftarrow> requests_post E CLEANING_PROMPT chunk 4096;
     if llm_status r \<noteq> 200 then do {
       print_symbols E;
       fallback \<leftarrow> strip_html_basic E chunk;
       clean_chunks E chunks (outputs @ [fallback])
     } else do {
       content \<leftarrow> message_content r;
       if content = [] then do {
         print_symbols E;
         fallback \<leftarrow> strip_html_basic E chunk;
         clean_chunks E chunks (outputs @ [fallback])
       } else clean_chunks E chunks (outputs @ [content])
     }
   }"

definition gpt_clean_body :: "('t, 'n) env \<Rightarrow> string \<Rightarrow> string option" where
  \<comment> \<open>the \<open>try\<close> block of \<open>gpt_clean\<close>\<close>
  "gpt_clean_body E html = do {
     article_html \<leftarrow> extract_article_content E html;
     chunks \<leftarrow> chunk_text (html_preclean article_html) 8000;
     outputs \<leftarrow> clean_chunks E chunks [];
     let result = join [newline] outputs;
         result = clean_llm_artifacts result;
         result = re_sub tag_pattern '''' result no_flags;
         result = re_sub whitespace_pattern '' '' result no_flags
     in Some (strip result)
   }"

definition gpt_clean :: "('t, 'n) env \<Rightarrow> string \<Rightarrow> string option" where
  \<comment> \<open>the handler prints a warning, then falls back\<close>
  "gpt_clean E html =
     (case gpt_clean_body E html of
        Some text \<Rightarrow> Some text
      | None \<Rightarrow> do { print_symbols E; strip_html_basic E html })"

definition skip_patterns :: "string list" where
  "skip_patterns = [
     ''click to share'', ''share on'', ''tweet'', ''share this'',
     ''subscribe'', ''newsletter'', ''follow us'', ''sign up'',
     ''read more'', ''continue reading'', ''related:'', ''tags:'',
     ''posted in'', ''filed under'', ''advertisement'', ''sponsored'',
     ''comment'', ''leave a comment'', ''view all posts'',
     ''copyright'', ''all rights reserved'',
     ''privacy policy'', ''terms of use'', ''cookie policy''
   ]"

fun manual_parts :: "('t, 'n) env \<Rightarrow> 't \<Rightarrow> 'n list \<Rightarrow> string list \<Rightarrow> string list option" where
  \<comment> \<open>the loop over the elements of one selector\<close>
  "manual_parts E tree [] parts = Some parts"
| "manual_parts E tree (elem # elems) parts = do {
     text \<leftarrow> node_text E tree elem;
     if length text < 3 then manual_parts E tree elems parts
     else if \<exists>pattern \<in> set skip_patterns. contains (lower text) pattern
     then manual_parts E tree elems parts
     else if startswith text ''http'' \<or> startswith text ''www''
     then manual_parts E tree elems parts
     else manual_parts E tree elems (parts @ [text])
   }"

fun manual_selectors :: "('t, 'n) env \<Rightarrow> 't \<Rightarrow> string list \<Rightarrow> string list \<Rightarrow> string list option" where
  \<comment> \<open>the loop over the selectors\<close>
  "manual_selectors E tree [] parts = Some parts"
| "manual_selectors E tree (selector # selectors) parts = do {
     elems \<leftarrow> css E tree selector;
     parts' \<leftarrow> manual_parts E tree elems parts;
     manual_selectors E tree selectors parts'
   }"

definition manual_clean_body :: "('t, 'n) env \<Rightarrow> string \<Rightarrow> string option" where
  \<comment> \<open>the \<open>try\<close> block of \<open>manual_clean\<close>\<close>
  "manual_clean_body E html = do {
     article_html \<leftarrow> extract_article_content E html;
     tree \<leftarrow> HTMLParser E article_html;
     h1 \<leftarrow> css_first E tree ''h1'';
     parts \<leftarrow> (case h1 of
                None \<Rightarrow> Some []
              | Some h \<Rightarrow> do {
                  title \<leftarrow> node_text E tree h;
                  Some (if title \<noteq> [] then [title, []] else [])
                });
     parts \<leftarrow> manual_selectors E tree [''p'', ''h2'', ''h3'', ''h4'', ''li'', ''blockquote''] parts;
     let result = join blank_line parts;
         result = re_sub whitespace_pattern '' '' result no_flags;
         result = re_sub blank_lines_pattern blank_line result no_flags
     in Some (strip result)
   }"

definition manual_clean :: "('t, 'n) env \<Rightarrow> string \<Rightarrow> string option" where
  \<comment> \<open>the handler prints a warning, then falls back\<close>
  "manual_clean E html =
     (case manual_clean_body E html of
        Some text \<Rightarrow> Some text
      | None \<Rightarrow> do { print_symbols E; strip_html_basic E html })"

definition gpt_summary_body :: "('t, 'n) env \<Rightarrow> string \<Rightarrow> string option" where
  \<comment> \<open>the \<open>try\<close> block of \<open>gpt_summary\<close>\<close>
  "gpt_summary_body E text = do {
     r \<leftarrow> requests_post E SUMMARY_PROMPT (take 4000 text) 512;
     if llm_status r \<noteq> 200 then do { print_symbols E; Some [] }
     else message_content r
   }"

definition gpt_summary :: "('t, 'n) env \<Rightarrow> string \<Rightarrow> string option" where
  \<comment> \<open>the handler prints a warning, then returns the empty string\<close>
  "gpt_summary E text =
     (case gpt_summary_body E text of
        Some summary \<Rightarrow> Some summary
      | None \<Rightarrow> do { print_symbols E; Some [] })"

definition USE_LLM_CLEANING :: bool where
  "USE_LLM_CLEANING = True"


section \<open>Metadata\<close>

definition truthy :: "json \<Rightarrow> bool" where
  \<comment> \<open>the truth value Python gives a value in \<open>if\<close>\<close>
  "truthy v =
     (case v of
        JNull \<Rightarrow> False
      | JBool b \<Rightarrow> b
      | JNum n \<Rightarrow> n \<noteq> 0
      | JStr s \<Rightarrow> s \<noteq> []
      | JArr xs \<Rightarrow> xs \<noteq> []
      | JObj members \<Rightarrow> members \<noteq> [])"

definition of_str :: "string option \<Rightarrow> json" where
  \<comment> \<open>a value that is a string or \<open>None\<close>\<close>
  "of_str v = (case v of None \<Rightarrow> JNull | Some s \<Rightarrow> JStr s)"

fun replace :: "string \<Rightarrow> string \<Rightarrow> string \<Rightarrow> string" where
  \<comment> \<open>\<open>s.replace(old, new)\<close> for a non-empty \<open>old\<close>, written \<open>replace old new s\<close>\<close>
  "replace old new [] = []"
| "replace old new (c # cs) =
     (if old \<noteq> [] \<and> startswith (c # cs) old
      then new @ replace old new (drop (length old - 1) cs)
      else c # replace old new cs)"

definition extract_title :: "('t, 'n) env \<Rightarrow> 't \<Rightarrow> string option" where
  "extract_title E tree = do {
     og \<leftarrow> css_first E tree ''meta[property='og:title']'';
     let title = (case og of
                    None \<Rightarrow> JStr []
                  | Some n \<Rightarrow> of_str (dict_get_default (attributes E tree n) ''content'' []));
     title \<leftarrow> (if \<not> truthy title then do {
                  h1 \<leftarrow> css_first E tree ''h1'';
                  case h1 of
                    None \<Rightarrow> Some title
                  | Some h \<Rightarrow> do { t \<leftarrow> node_text E tree h; Some (JStr t) }
                } else Some title);
     Some (case title of JStr t \<Rightarrow> if t = [] then ''Untitled'' else t | _ \<Rightarrow> ''Untitled'')
   }"

fun author_names :: "json list \<Rightarrow> string list option" where
  \<comment> \<open>\<open>a.get("name", "") for a in authors if "name" in a\<close>, as \<open>join\<close> consumes it: it
      raises on an entry that is no dictionary and has \<open>"name"\<close> in it (or cannot be searched),
      and on a name that is no string\<close>
  "author_names [] = Some []"
| "author_names (a # as) =
     (case a of
        JObj members \<Rightarrow>
          (case map_of members ''name'' of
             None \<Rightarrow> author_names as
           | Some (JStr name) \<Rightarrow> map_option ((#) name) (author_names as)
           | Some _ \<Rightarrow> None)
      | JStr s \<Rightarrow> if contains s ''name'' then None else author_names as
      | JArr xs \<Rightarrow> if JStr ''name'' \<in> set xs then None else author_names as
      | _ \<Rightarrow> None)"

definition ld_author :: "json \<Rightarrow> json \<Rightarrow> json option" where
  \<comment> \<open>the author after one structured-data block \<open>data\<close>, \<open>author\<close> being the one before\<close>
  "ld_author data author =
     (case data of
        JObj members \<Rightarrow>
          (case map_of members ''author'' of
             None \<Rightarrow> Some author
           | Some (JArr authors) \<Rightarrow> map_option (\<lambda>names. JStr (join '', '' names)) (author_names authors)
           | Some v \<Rightarrow> py_get v ''name'' (JStr []))
      | _ \<Rightarrow> Some author)"

fun ld_json_authors :: "('t, 'n) env \<Rightarrow> 't \<Rightarrow> 'n list \<Rightarrow> json \<Rightarrow> json" where
  \<comment> \<open>the loop over the structured-data blocks; a block that raises is passed over\<close>
  "ld_json_authors E tree [] author = author"
| "ld_json_authors E tree (n # ns) author =
     ld_json_authors E tree ns
       (case do {
               t \<leftarrow> node_text E tree n;
               data \<leftarrow> json_loads E t;
               ld_author data author
             } of
          Some a \<Rightarrow> a
        | None \<Rightarrow> author)"

definition extract_author :: "('t, 'n) env \<Rightarrow> 't \<Rightarrow> json option" where
  "extract_author E tree = do {
     scripts \<leftarrow> css E tree ''script[type='application/ld+json']'';
     let author = ld_json_authors E tree scripts (JStr []);
     author \<leftarrow> (if \<not> truthy author then do {
                   meta_author \<leftarrow> css_first E tree ''meta[name='author']'';
                   Some (case meta_author of
                           None \<Rightarrow> author
                         | Some n \<Rightarrow> of_str (dict_get_default (attributes E tree n) ''content'' []))
                 } else Some author);
     if \<not> truthy author then do {
       by \<leftarrow> css_first E tree ''.byline, .author, .post-author'';
       case by of
         None \<Rightarrow> Some author
       | Some n \<Rightarrow> do { t \<leftarrow> node_text E tree n; Some (JStr (replace ''By '' [] t)) }
     } else Some author
   }"

definition extract_published :: "('t, 'n) env \<Rightarrow> 't \<Rightarrow> string \<Rightarrow> datetime option" where
  "extract_published E tree html = do {
     meta_time \<leftarrow> css_first E tree ''meta[property='article:published_time']'';
     let published = (case meta_time of
                        None \<Rightarrow> JStr []
                      | Some n \<Rightarrow> of_str (dict_get_default (attributes E tree n) ''content'' []));
     Some (case published of
             JStr p \<Rightarrow>
               if p = [] then utcnow E html
               else (case fromisoformat E p of Some d \<Rightarrow> d | None \<Rightarrow> utcnow E html)
           | _ \<Rightarrow> utcnow E html)
   }"

definition extract_metadata :: "('t, 'n) env \<Rightarrow> string \<Rightarrow> (string \<times> json \<times> datetime) option" where
  "extract_metadata E html = do {
     tree \<leftarrow> HTMLParser E html;
     title \<leftarrow> extract_title E tree;
     author \<leftarrow> extract_author E tree;
     published \<leftarrow> extract_published E tree html;
     Some (title, author, published)
   }"


section \<open>The orchestrator\<close>

record crawl_result =
  result_html :: string
  result_markdown :: string
  result_success :: bool

definition crawl_article_body :: "('t, 'n) env \<Rightarrow> string \<Rightarrow> crawl_result option option" where
  \<comment> \<open>the \<open>try\<close> block of \<open>crawl_article\<close>: the object returned, or Python's \<open>None\<close>\<close>
  "crawl_article_body E url = do {
     response \<leftarrow> requests_get_article E url;
     if status_code response \<noteq> 200 then do { print_symbols E; Some None }
     else do {
       markdown \<leftarrow> strip_html_basic E (body_text response);
       Some (Some \<lparr>result_html = body_text response, result_markdown = markdown,
                   result_success = True\<rparr>)
     }
   }"

definition crawl_article :: "('t, 'n) env \<Rightarrow> string \<Rightarrow> crawl_result option option" where
  \<comment> \<open>the handler prints a warning, then returns Python's \<open>None\<close>\<close>
  "crawl_article E url =
     (case crawl_article_body E url of
        Some res \<Rightarrow> Some res
      | None \<Rightarrow> do { print_symbols E; Some None })"

datatype admission = Rejected | Admitted post

definition raw_text :: "('t, 'n) env \<Rightarrow> crawl_result \<Rightarrow> string option" where
  \<comment> \<open>\<open>res.markdown or strip_html_basic(html)\<close>\<close>
  "raw_text E res =
     (if result_markdown res \<noteq> [] then Some (result_markdown res)
      else strip_html_basic E (result_html res))"

definition clean_text :: "('t, 'n) env \<Rightarrow> string \<Rightarrow> string option" where
  \<comment> \<open>the cleaning method chosen by the flag\<close>
  "clean_text E html = (if USE_LLM_CLEANING then gpt_clean E html else manual_clean E html)"

definition candidate :: "('t, 'n) env \<Rightarrow> int \<Rightarrow> string \<Rightarrow> admission option" where
  \<comment> \<open>the body of the loop of \<open>crawl_site\<close> up to the call of \<open>upsert_post\<close>: the article is
      skipped, or the post is built; \<open>None\<close> when the body raises\<close>
  "candidate E blog_id u = do {
     print_symbols E;
     res \<leftarrow> crawl_article E u;
     case res of
       None \<Rightarrow> do { print_symbols E; Some Rejected }
     | Some res \<Rightarrow>
         if \<not> result_success res then do { print_symbols E; Some Rejected }
         else do {
           let html = result_html res;
           raw_text \<leftarrow> raw_text E res;
           if length (strip raw_text) < 50 then do { print_symbols E; Some Rejected }
           else do {
             (title, author, published) \<leftarrow> extract_metadata E html;
             cleaned_text \<leftarrow> clean_text E html;
             if length (strip cleaned_text) < 50 then do { print_symbols E; Some Rejected }
             else do {
               cleaned_html \<leftarrow> extract_article_content E html;
               summary \<leftarrow> gpt_summary E cleaned_text;
               Some (Admitted \<lparr>post_blog_id = blog_id, post_url = u, post_title = title,
                       post_text = cleaned_text, post_html = cleaned_html,
                       post_author = author, post_tags = [], post_published = published,
                       post_summary = summary\<rparr>)
             }
           }
         }
   }"

record crawl_count =
  inserted :: int
  skipped :: int
  handed :: "post list"  \<comment> \<open>the posts passed to \<open>upsert_post\<close>, in order\<close>

fun crawl_articles :: "('t, 'n) env \<Rightarrow> int \<Rightarrow> crawl_count \<Rightarrow> string list \<Rightarrow> crawl_count option" where
  \<comment> \<open>the loop over the article URLs\<close>
  "crawl_articles E blog_id st [] = Some st"
| "crawl_articles E blog_id st (u # us) =
     (if 10 \<le> inserted st then do { print_symbols E; Some st }
      else do {
        a \<leftarrow> candidate E blog_id u;
        case a of
          Rejected \<Rightarrow> crawl_articles E blog_id (st\<lparr>skipped := skipped st + 1\<rparr>) us
        | Admitted p \<Rightarrow>
            let post_id = upsert_post E (handed st) p;
                st' = st\<lparr>handed := handed st @ [p]\<rparr>
            in do {
              print_symbols E;
              if post_id \<noteq> None \<and> post_id \<noteq> Some 0
              then crawl_articles E blog_id (st'\<lparr>inserted := inserted st' + 1\<rparr>) us
              else crawl_articles E blog_id (st'\<lparr>skipped := skipped st' + 1\<rparr>) us
            }
      })"

definition crawl_site :: "('t, 'n) env \<Rightarrow> int \<Rightarrow> string \<Rightarrow> crawl_count option" where
  "crawl_site E blog_id site_url = do {
     print_symbols E;
     article_urls \<leftarrow> discover_all_links E site_url 500 10;
     print_symbols E;
     counts \<leftarrow> crawl_articles E blog_id \<lparr>inserted = 0, skipped = 0, handed = []\<rparr> article_urls;
     print_symbols E;
     Some counts
   }"


section \<open>A small document\<close>

text \<open>
  Concrete environments for running the extraction. A parsed document is its source text;
  \<open>docs\<close> lists, for each source text, the elements that each selector of the program
  matches in it (a selector that is not listed matches nothing). Removing an element
  leaves the listed answers as they are, so they are written as the answers after the junk
  is removed.
\<close>

record element =
  el_text :: string
  el_html :: string
  el_attrs :: "(string \<times> string option) list"

type_synonym documents = "(string \<times> (string \<times> element list) list) list"

definition matched :: "documents \<Rightarrow> string \<Rightarrow> string \<Rightarrow> element list" where
  "matched docs html selector =
     (case map_of docs html of
        None \<Rightarrow> []
      | Some selectors \<Rightarrow> (case map_of selectors selector of None \<Rightarrow> [] | Some es \<Rightarrow> es))"

definition doc_env :: "documents \<Rightarrow> (string \<Rightarrow> json option) \<Rightarrow> (string \<Rightarrow> response option)
    \<Rightarrow> (prompt \<Rightarrow> string \<Rightarrow> int \<Rightarrow> llm_response option) \<Rightarrow> (string, element) env" where
  "doc_env docs loads get_article post = \<lparr>
     requests_get = (\<lambda>url. None),
     HTMLParser = (\<lambda>html. Some html),
     css = (\<lambda>t selector. Some (matched docs t selector)),
     css_first = (\<lambda>t selector. Some (case matched docs t selector of [] \<Rightarrow> None | e # es \<Rightarrow> Some e)),
     attributes = (\<lambda>t n. map_of (el_attrs n)),
     node_text = (\<lambda>t n. Some (el_text n)),
     node_html = (\<lambda>t n. Some (el_html n)),
     decompose = (\<lambda>t n. Some t),
     urljoin = (\<lambda>base href. None),
     netloc = (\<lambda>url. None),
     url_scheme = (\<lambda>url. None),
     pick = (\<lambda>xs. 0),
     requests_get_article = get_article,
     requests_post = post,
     json_loads = loads,
     fromisoformat = (\<lambda>s. None),
     utcnow = (\<lambda>html. 0),
     upsert_post = (\<lambda>earlier p. Some (1 + int (length earlier))),
     print_symbols = Some ()
   \<rparr>"

lemma doc_env_fields:
  "HTMLParser (doc_env docs loads get_article post) html = Some html"
  "css (doc_env docs loads get_article post) t selector = Some (matched docs t selector)"
  "css_first (doc_env docs loads get_article post) t selector =
     Some (case matched docs t selector of [] \<Rightarrow> None | e # es \<Rightarrow> Some e)"
  "attributes (doc_env docs loads get_article post) t n = map_of (el_attrs n)"
  "node_text (doc_env docs loads get_article post) t n = Some (el_text n)"
  "node_html (doc_env docs loads get_article post) t n = Some (el_html n)"
  "decompose (doc_env docs loads get_article post) t n = Some t"
  "requests_get_article (doc_env docs loads get_article post) = get_article"
  "requests_post (doc_env docs loads get_article post) = post"
  "json_loads (doc_env docs loads get_article post) = loads"
  "fromisoformat (doc_env docs loads get_article post) s = None"
  "utcnow (doc_env docs loads get_article post) html = 0"
  "upsert_post (doc_env docs loads get_article post) earlier p = Some (1 + int (length earlier))"
  "print_symbols (doc_env docs loads get_article post) = Some ()"
  by (simp_all add: doc_env_def)

definition plain :: "string \<Rightarrow> string \<Rightarrow> element" where
  \<comment> \<open>an element without attributes: its text and its markup\<close>
  "plain t h = \<lparr>el_text = t, el_html = h, el_attrs = []\<rparr>"

definition story :: string where
  "story = ''<article><h1>Title</h1><p>First paragraph.</p><p>Second one.</p><p>The third.</p></article>''"

definition story_elements :: "(string \<times> element list) list" where
  "story_elements = [
     (''head'', [plain [] ''<head></head>'']),
     (''article'', [plain ''TitleFirst paragraph.Second one.The third.'' story]),
     (''h1'', [plain ''Title'' ''<h1>Title</h1>'']),
     (''p'', [plain ''First paragraph.'' ''<p>First paragraph.</p>'',
              plain ''Second one.'' ''<p>Second one.</p>'',
              plain ''The third.'' ''<p>The third.</p>'']),
     (''p, li, h1, h2, h3, h4'', [plain ''Title'' ''<h1>Title</h1>'',
              plain ''First paragraph.'' ''<p>First paragraph.</p>'',
              plain ''Second one.'' ''<p>Second one.</p>'',
              plain ''The third.'' ''<p>The third.</p>''])
   ]"

definition story_doc :: documents where
  "story_doc = [(story, story_elements)]"

lemmas sub_eval = re_sub_def element_pattern_def comment_pattern_def whitespace_pattern_def
  tag_pattern_def img_pattern_def blank_lines_pattern_def any_char_def re_S_def re_IM_def
  re_IS_def strip_def blank_line_def rx_eval

lemmas doc_eval = doc_env_fields plain_def dict_get_def dict_get_default_def

lemmas content_eval = extract_article_content_def extract_article_content_body_def
  strip_html_basic_def strip_html_basic_body_def JUNK_SELECTORS_def article_selectors_def
  Let_def doc_eval

lemma story_matched:
  "matched story_doc story selector =
     (case map_of story_elements selector of None \<Rightarrow> [] | Some es \<Rightarrow> es)"
  by (simp add: matched_def story_doc_def)

lemma story_unchanged:
  "re_sub (element_pattern ''head'') [] story re_I = story"
  "re_sub (element_pattern ''script'') [] story re_I = story"
  "re_sub (element_pattern ''style'') [] story re_I = story"
  "re_sub img_pattern [] story re_I = story"
  "re_sub comment_pattern [] story re_S = story"
  "strip story = story"
  by (simp_all add: story_def sub_eval)

lemma story_content:
  "extract_article_content (doc_env story_doc loads get_article post) story = Some story"
  by (simp add: content_eval story_matched story_elements_def story_unchanged)

lemma story_basic:
  "strip_html_basic (doc_env story_doc loads get_article post) story
     = Some (''First paragraph.'' @ [newline, newline] @ ''Second one.'')"
  by (simp add: content_eval story_matched story_elements_def story_unchanged blank_line_def)

lemma story_manual:
  "manual_clean (doc_env story_doc loads get_article post) story
     = Some ''Title First paragraph. Second one. The third.''"
  by (simp add: manual_clean_def manual_clean_body_def story_content skip_patterns_def lower_def
        Let_def sub_eval doc_eval story_matched story_elements_def)


section \<open>Properties of content extraction\<close>

lemma strip_html_basic_returns: "\<exists>text. strip_html_basic E html = Some text"
  by (simp add: strip_html_basic_def split: option.split)

lemma extract_article_content_returns: "\<exists>text. extract_article_content E html = Some text"
  using strip_html_basic_returns [of E html]
  by (auto simp: extract_article_content_def split: option.split)

lemma gpt_clean_returns:
  "print_symbols E = Some () \<Longrightarrow> \<exists>text. gpt_clean E html = Some text"
  using strip_html_basic_returns [of E html]
  by (auto simp: gpt_clean_def split: option.split)

lemma manual_clean_returns:
  "print_symbols E = Some () \<Longrightarrow> \<exists>text. manual_clean E html = Some text"
  using strip_html_basic_returns [of E html]
  by (auto simp: manual_clean_def split: option.split)

lemma gpt_summary_returns:
  "print_symbols E = Some () \<Longrightarrow> \<exists>summary. gpt_summary E text = Some summary"
  by (auto simp: gpt_summary_def split: option.split)

lemma clean_text_returns:
  "print_symbols E = Some () \<Longrightarrow> \<exists>text. clean_text E html = Some text"
  using gpt_clean_returns [of E html] manual_clean_returns [of E html]
  by (simp add: clean_text_def)

lemma chunk_text_returns: "\<exists>chunks. chunk_text text 8000 = Some chunks"
  by (simp add: chunk_text_def)

text \<open>
  As long as the warnings can be printed, neither strategy raises, whatever the parser, the
  selectors and the text-generation service do, and the result is the empty string when the
  strategy and the fallback both fail.
\<close>

lemma extraction_returns_when_printing:
  assumes "print_symbols E = Some ()"
  shows "(\<exists>text. gpt_clean E html = Some text)
   \<and> (\<exists>text. manual_clean E html = Some text)
   \<and> (\<exists>text. strip_html_basic E html = Some text)
   \<and> (gpt_clean_body E html = None \<and> strip_html_basic_body E html = None
        \<longrightarrow> gpt_clean E html = Some [])
   \<and> (manual_clean_body E html = None \<and> strip_html_basic_body E html = None
        \<longrightarrow> manual_clean E html = Some [])
   \<and> (strip_html_basic_body E html = None \<longrightarrow> strip_html_basic E html = Some [])"
proof -
  have "gpt_clean E html = Some []"
    if "gpt_clean_body E html = None" "strip_html_basic_body E html = None"
    using that assms by (simp add: gpt_clean_def strip_html_basic_def)
  moreover have "manual_clean E html = Some []"
    if "manual_clean_body E html = None" "strip_html_basic_body E html = None"
    using that assms by (simp add: manual_clean_def strip_html_basic_def)
  moreover have "strip_html_basic E html = Some []" if "strip_html_basic_body E html = None"
    using that by (simp add: strip_html_basic_def)
  ultimately show ?thesis
    using gpt_clean_returns [OF assms, of html] manual_clean_returns [OF assms, of html]
      strip_html_basic_returns [of E html]
    by blast
qed

definition offline :: "(string, element) env" where
  \<comment> \<open>the story; the text-generation service cannot be reached, so that \<open>requests.post\<close>
      raises\<close>
  "offline = doc_env story_doc (\<lambda>s. None) (\<lambda>url. None) (\<lambda>system user max_tokens. None)"

definition no_parser :: "(string, element) env" where
  \<comment> \<open>an environment in which the parser raises on every input\<close>
  "no_parser = offline\<lparr>HTMLParser := \<lambda>html. None\<rparr>"

definition no_basic :: "(string, element) env" where
  \<comment> \<open>an environment in which the selector of \<open>strip_html_basic\<close> raises\<close>
  "no_basic = offline\<lparr>css := \<lambda>t selector. if selector = ''p, li, h1, h2, h3, h4'' then None
                                         else Some (matched story_doc t selector)\<rparr>"


lemma no_parser_fails:
  "strip_html_basic_body no_parser story = None"
  "manual_clean_body no_parser story = None"
  by (simp_all add: no_parser_def offline_def manual_clean_body_def content_eval)

lemma story_preclean: "html_preclean story = story"
  by (simp add: html_preclean_def story_def sub_eval)

lemma story_chunks: "chunk_text story 8000 = Some [story]"
  by (simp add: chunk_text_def chunk_loop.simps story_def)

lemma no_basic_fails:
  "strip_html_basic_body no_basic story = None"
  "gpt_clean_body no_basic story = None"
proof -
  show "strip_html_basic_body no_basic story = None"
    by (simp add: no_basic_def offline_def strip_html_basic_body_def story_unchanged doc_eval)
  have "extract_article_content no_basic story = Some story"
    by (simp add: no_basic_def offline_def content_eval story_matched story_elements_def
          story_unchanged)
  then show "gpt_clean_body no_basic story = None"
    by (simp add: gpt_clean_body_def story_preclean story_chunks no_basic_def offline_def doc_eval)
qed

lemma extraction_returns_when_printing_example:
  "manual_clean_body no_parser story = None \<and> strip_html_basic_body no_parser story = None
   \<and> manual_clean no_parser story = Some []
   \<and> gpt_clean_body no_basic story = None \<and> strip_html_basic_body no_basic story = None
   \<and> gpt_clean no_basic story = Some []
   \<and> strip_html_basic no_basic story = Some []"
proof -
  have "print_symbols no_parser = Some ()" "print_symbols no_basic = Some ()"
    by (simp_all add: no_parser_def no_basic_def offline_def doc_eval)
  from extraction_returns_when_printing [OF this(1), of story]
    extraction_returns_when_printing [OF this(2), of story]
  show ?thesis
    using no_parser_fails no_basic_fails by simp
qed




text \<open>
  The loops of \<open>manual_clean\<close> keep the heading and the paragraphs in document order and
  join them with blank lines, but the substitution of \<open>\s+\<close> that follows replaces every
  run of white space, line breaks included, by one space: no text that the \<open>try\<close> block of
  \<open>manual_clean\<close> returns holds a line break.
\<close>

lemma star_greedy_ends:
  assumes "\<And>s r. r \<in> set (step s) \<Longrightarrow> length r \<le> length s"
  shows "star_greedy step n s \<noteq> [] \<and> (\<forall>r \<in> set (star_greedy step n s). length r \<le> length s)"
proof (induction n arbitrary: s)
  case 0
  then show ?case by simp
next
  case (Suc n)
  have "length r \<le> length s" if "q \<in> set (step s)" "r \<in> set (star_greedy step n q)" for q r
  proof -
    from Suc.IH [of q] that(2) have "length r \<le> length q" by blast
    with assms [OF that(1)] show ?thesis by simp
  qed
  then show ?case by auto
qed

lemma one_char_ends: "r \<in> set (one_char P s) \<Longrightarrow> length r \<le> length s"
  by (cases s) (auto split: if_splits)

lemma whitespace_match:
  "match_at no_flags whitespace_pattern prev (c # cs) = None \<longleftrightarrow> \<not> isspace c"
  "match_at no_flags whitespace_pattern prev (c # cs) = Some r \<Longrightarrow> length r \<le> length cs"
proof -
  let ?ends = "star_greedy (rx_ends no_flags (One Space)) (length cs) cs"
  have e: "rx_ends no_flags (body whitespace_pattern) (c # cs) = (if isspace c then ?ends else [])"
    by (simp add: whitespace_pattern_def unanchored_def plus_def)
  have s: "?ends \<noteq> [] \<and> (\<forall>r \<in> set ?ends. length r \<le> length cs)"
    by (rule star_greedy_ends) (simp add: one_char_ends)
  have p: "\<not> bol whitespace_pattern" "\<not> eol whitespace_pattern"
    by (simp_all add: whitespace_pattern_def unanchored_def)
  show "match_at no_flags whitespace_pattern prev (c # cs) = None \<longleftrightarrow> \<not> isspace c"
    using e s p by (cases ?ends) (auto simp: match_at_def)
  show "length r \<le> length cs" if "match_at no_flags whitespace_pattern prev (c # cs) = Some r"
  proof -
    from that e p have "isspace c" and "r \<in> set ?ends"
      by (auto simp: match_at_def split: if_splits list.splits)
    with s show ?thesis by blast
  qed
qed

lemma whitespace_sub_chars:
  "\<forall>x \<in> set (sub_from no_flags whitespace_pattern '' '' prev s). x = CHR '' '' \<or> \<not> isspace x"
proof (induction s arbitrary: prev rule: length_induct)
  case (1 s)
  note IH = "1.IH" [rule_format]
  show ?case
  proof (cases s)
    case Nil
    then show ?thesis by (simp split: option.split)
  next
    case (Cons c cs)
    show ?thesis
    proof (cases "match_at no_flags whitespace_pattern prev (c # cs)")
      case None
      then have c: "\<not> isspace c" by (simp add: whitespace_match)
      have "length cs < length s" using Cons by simp
      from IH [OF this]
      have "\<forall>x \<in> set (sub_from no_flags whitespace_pattern '' '' (Some c) cs).
              x = CHR '' '' \<or> \<not> isspace x" by blast
      with c None Cons show ?thesis by simp
    next
      case (Some r)
      from whitespace_match(2) [OF Some] have l: "length r < length (c # cs)" by simp
      then have "length r < length s" using Cons by simp
      from IH [OF this]
      have "\<forall>x \<in> set (sub_from no_flags whitespace_pattern '' ''
                 (Some (last (take (length (c # cs) - length r) (c # cs)))) r).
              x = CHR '' '' \<or> \<not> isspace x" by blast
      with Some Cons l show ?thesis by simp
    qed
  qed
qed

lemma blank_lines_no_match:
  "c \<noteq> newline \<Longrightarrow> match_at no_flags blank_lines_pattern prev (c # cs) = None"
  "match_at no_flags blank_lines_pattern prev [] = None"
  by (simp_all add: match_at_def blank_lines_pattern_def unanchored_def no_flags_def)

lemma blank_lines_sub_id:
  "newline \<notin> set s \<Longrightarrow> sub_from no_flags blank_lines_pattern repl prev s = s"
proof (induction s arbitrary: prev)
  case Nil
  then show ?case by (simp add: blank_lines_no_match)
next
  case (Cons c cs)
  then have "c \<noteq> newline" by auto
  then have "match_at no_flags blank_lines_pattern prev (c # cs) = None"
    by (rule blank_lines_no_match)
  with Cons show ?case by simp
qed

lemma set_strip: "x \<in> set (strip s) \<Longrightarrow> x \<in> set s"
  unfolding strip_def by (auto dest!: set_dropWhileD)

lemma isspace_newline: "isspace newline"
  by (simp add: newline_def isspace_ascii)

lemma whitespace_sub_one_line:
  "newline \<notin> set (re_sub whitespace_pattern '' '' s no_flags)"
proof
  assume "newline \<in> set (re_sub whitespace_pattern '' '' s no_flags)"
  then have "newline \<in> set (sub_from no_flags whitespace_pattern '' '' None s)"
    by (simp only: re_sub_def)
  with whitespace_sub_chars [of None s]
  have "newline = CHR '' '' \<or> \<not> isspace newline"
    by (rule bspec)
  moreover have "newline \<noteq> CHR '' ''"
    by (simp add: newline_def)
  ultimately show False
    using isspace_newline by blast
qed

lemma blank_lines_sub_one_line:
  assumes "newline \<notin> set s"
  shows "re_sub blank_lines_pattern repl s no_flags = s"
  unfolding re_sub_def using assms by (rule blank_lines_sub_id)

lemma manual_result_one_line:
  "newline \<notin> set (strip (re_sub blank_lines_pattern blank_line
                 (re_sub whitespace_pattern '' '' s no_flags) no_flags))"
proof
  assume "newline \<in> set (strip (re_sub blank_lines_pattern blank_line
                 (re_sub whitespace_pattern '' '' s no_flags) no_flags))"
  then have "newline \<in> set (re_sub blank_lines_pattern blank_line
                 (re_sub whitespace_pattern '' '' s no_flags) no_flags)"
    by (rule set_strip)
  then have "newline \<in> set (re_sub whitespace_pattern '' '' s no_flags)"
    by (simp only: blank_lines_sub_one_line [OF whitespace_sub_one_line])
  with whitespace_sub_one_line show False by blast
qed

lemma manual_clean_body_one_line:
  assumes "manual_clean_body E html = Some text"
  shows "newline \<notin> set text"
proof -
  from assms obtain s where
    "text = strip (re_sub blank_lines_pattern blank_line
                 (re_sub whitespace_pattern '' '' s no_flags) no_flags)"
    unfolding manual_clean_body_def Let_def
    by (auto simp: bind_eq_Some_conv)
  then show ?thesis
    by (simp only: manual_result_one_line not_False_eq_True)
qed

lemma story_located:
  "extract_article_content offline story = Some story"
  "css_first offline story ''h1'' = Some (Some (plain ''Title'' ''<h1>Title</h1>''))"
  "css offline story ''p''
     = Some [plain ''First paragraph.'' ''<p>First paragraph.</p>'',
             plain ''Second one.'' ''<p>Second one.</p>'',
             plain ''The third.'' ''<p>The third.</p>'']"
  by (simp_all add: offline_def story_content doc_env_fields story_matched story_elements_def)

text \<open>
  Claim C7: on a page whose content container holds one heading and three qualifying
  paragraphs, \<open>manual_clean\<close> returns the heading, a blank line, and the three paragraphs in
  document order, joined by blank lines. The container of the story is the whole story,
  its heading is \<open>Title\<close> and its three paragraphs qualify; the program returns the four
  texts in document order, but separated by single spaces: the result holds no line
  break, and is not the text that the claim describes.
\<close>

theorem manual_clean_joins_with_spaces:
  "extract_article_content offline story = Some story
   \<and> css_first offline story ''h1'' = Some (Some (plain ''Title'' ''<h1>Title</h1>''))
   \<and> map el_text (the (css offline story ''p''))
       = [''First paragraph.'', ''Second one.'', ''The third.'']
   \<and> manual_clean offline story = Some ''Title First paragraph. Second one. The third.''
   \<and> manual_clean offline story
       \<noteq> Some (join blank_line [''Title'', ''First paragraph.'', ''Second one.'', ''The third.''])
   \<and> newline \<notin> set (the (manual_clean offline story))"
  by (simp add: story_located plain_def)
     (simp add: offline_def story_manual blank_line_def newline_def)


section \<open>Properties of the orchestrator\<close>

lemma candidate_admitted:
  assumes "candidate E blog_id u = Some (Admitted p)"
  shows "\<exists>res raw. crawl_article E u = Some (Some res) \<and> result_success res
           \<and> raw_text E res = Some raw \<and> 50 \<le> length (strip raw)
           \<and> clean_text E (result_html res) = Some (post_text p)
           \<and> 50 \<le> length (strip (post_text p))"
  using assms
  by (auto simp: candidate_def Let_def bind_eq_Some_conv
           split: option.splits if_splits prod.splits)

lemma candidate_short_raw:
  assumes "print_symbols E = Some ()" "crawl_article E u = Some (Some res)" "result_success res"
    and "raw_text E res = Some raw" "length (strip raw) < 50"
  shows "candidate E blog_id u = Some Rejected"
  using assms by (simp add: candidate_def)

lemma candidate_gate:
  assumes "print_symbols E = Some ()" "crawl_article E u = Some (Some res)" "result_success res"
    and "raw_text E res = Some raw" "50 \<le> length (strip raw)"
    and "extract_metadata E (result_html res) = Some meta"
    and "clean_text E (result_html res) = Some cleaned"
  shows "(length (strip cleaned) < 50 \<longrightarrow> candidate E blog_id u = Some Rejected)
       \<and> (50 \<le> length (strip cleaned) \<longrightarrow>
            (\<exists>p. candidate E blog_id u = Some (Admitted p) \<and> post_text p = cleaned))"
proof -
  obtain cleaned_html where h: "extract_article_content E (result_html res) = Some cleaned_html"
    using extract_article_content_returns by blast
  obtain summary where s: "gpt_summary E cleaned = Some summary"
    using gpt_summary_returns [OF assms(1)] by blast
  obtain title author published where m: "meta = (title, author, published)"
    by (cases meta) auto
  show ?thesis
    using assms h s unfolding m
    by (simp add: candidate_def)
qed

lemma crawl_articles_handed:
  assumes "crawl_articles E blog_id st us = Some st'"
  shows "\<forall>p \<in> set (handed st'). p \<in> set (handed st)
           \<or> (\<exists>u \<in> set us. candidate E blog_id u = Some (Admitted p))"
  using assms
proof (induction us arbitrary: st)
  case Nil
  then show ?case by simp
next
  case (Cons u us)
  show ?case
  proof (cases "10 \<le> inserted st")
    case True
    with Cons.prems show ?thesis
      by (auto simp: bind_eq_Some_conv)
  next
    case False
    with Cons.prems obtain a where a: "candidate E blog_id u = Some a"
      by (auto simp: bind_eq_Some_conv)
    show ?thesis
    proof (cases a)
      case Rejected
      with Cons.prems False a
      have "crawl_articles E blog_id (st\<lparr>skipped := skipped st + 1\<rparr>) us = Some st'"
        by simp
      from Cons.IH [OF this] show ?thesis by auto
    next
      case (Admitted q)
      let ?st = "st\<lparr>handed := handed st @ [q]\<rparr>"
      from Cons.prems False a Admitted
      have "crawl_articles E blog_id (?st\<lparr>inserted := inserted ?st + 1\<rparr>) us = Some st'
            \<or> crawl_articles E blog_id (?st\<lparr>skipped := skipped ?st + 1\<rparr>) us = Some st'"
        by (auto simp: Let_def bind_eq_Some_conv split: if_splits)
      then have "\<forall>p \<in> set (handed st'). p \<in> set (handed ?st)
           \<or> (\<exists>u \<in> set us. candidate E blog_id u = Some (Admitted p))"
      proof
        assume "crawl_articles E blog_id (?st\<lparr>inserted := inserted ?st + 1\<rparr>) us = Some st'"
        from Cons.IH [OF this] show ?thesis by simp
      next
        assume "crawl_articles E blog_id (?st\<lparr>skipped := skipped ?st + 1\<rparr>) us = Some st'"
        from Cons.IH [OF this] show ?thesis by simp
      qed
      with a Admitted show ?thesis by auto
    qed
  qed
qed

lemma crawl_site_handed:
  assumes "crawl_site E blog_id site_url = Some st'"
  shows "\<forall>p \<in> set (handed st'). \<exists>u. candidate E blog_id u = Some (Admitted p)"
proof -
  from assms obtain us where
    "crawl_articles E blog_id \<lparr>inserted = 0, skipped = 0, handed = []\<rparr> us = Some st'"
    by (auto simp: crawl_site_def bind_eq_Some_conv)
  from crawl_articles_handed [OF this] show ?thesis
    by auto
qed


definition paragraph_text :: string where
  "paragraph_text = ''The council met on Monday and passed the budget for the coming year.''"

definition report :: string where
  "report = ''<article><h1>Report</h1><p>'' @ paragraph_text @ ''</p></article>''"

definition report_elements :: "(string \<times> element list) list" where
  "report_elements = [
     (''article'', [plain (''Report'' @ paragraph_text) report]),
     (''h1'', [plain ''Report'' ''<h1>Report</h1>'']),
     (''p'', [plain paragraph_text (''<p>'' @ paragraph_text @ ''</p>'')]),
     (''p, li, h1, h2, h3, h4'', [plain ''Report'' ''<h1>Report</h1>'',
              plain paragraph_text (''<p>'' @ paragraph_text @ ''</p>'')])
   ]"

definition report_doc :: documents where
  "report_doc = [(report, report_elements)]"

definition service :: "string \<Rightarrow> prompt \<Rightarrow> string \<Rightarrow> int \<Rightarrow> llm_response option" where
  \<comment> \<open>a text-generation service that answers every request with the same text\<close>
  "service answer system user max_tokens =
     Some \<lparr>llm_status = 200,
           llm_json = Some (JObj [(''choices'',
                        JArr [JObj [(''message'', JObj [(''content'', JStr answer)])]])])\<rparr>"

definition desk :: "string \<Rightarrow> (string, element) env" where
  \<comment> \<open>every article URL serves the report; the service answers with \<open>answer\<close>\<close>
  "desk answer = doc_env report_doc (\<lambda>s. None)
                   (\<lambda>url. Some \<lparr>status_code = 200, body_text = report\<rparr>) (service answer)"

definition answer49 :: string where
  "answer49 = ''The council passed the budget for the coming year''"

definition answer50 :: string where
  "answer50 = ''The council passed the budget for the coming year.''"

definition report_result :: crawl_result where
  "report_result = \<lparr>result_html = report, result_markdown = paragraph_text, result_success = True\<rparr>"

lemma report_matched:
  "matched report_doc report selector =
     (case map_of report_elements selector of None \<Rightarrow> [] | Some es \<Rightarrow> es)"
  by (simp add: matched_def report_doc_def)

lemma report_unchanged:
  "re_sub (element_pattern ''head'') [] report re_I = report"
  "re_sub (element_pattern ''script'') [] report re_I = report"
  "re_sub (element_pattern ''style'') [] report re_I = report"
  "re_sub img_pattern [] report re_I = report"
  "re_sub comment_pattern [] report re_S = report"
  "strip report = report"
  by (simp_all add: report_def paragraph_text_def sub_eval)

lemma report_preclean: "html_preclean report = report"
  by (simp add: html_preclean_def report_def paragraph_text_def sub_eval)

lemma report_chunks: "chunk_text report 8000 = Some [report]"
  by (simp add: chunk_text_def chunk_loop.simps report_def paragraph_text_def)

lemma report_content: "extract_article_content (desk answer) report = Some report"
  by (simp add: desk_def content_eval report_matched report_elements_def report_unchanged)

lemma report_basic: "strip_html_basic (desk answer) report = Some paragraph_text"
proof -
  have "10 < length paragraph_text"
    by (simp add: paragraph_text_def)
  then show ?thesis
    by (simp add: desk_def content_eval report_matched report_elements_def report_unchanged
          blank_line_def)
qed

lemma report_crawl: "crawl_article (desk answer) u = Some (Some report_result)"
  using report_basic [of answer]
  by (simp add: crawl_article_def crawl_article_body_def report_result_def)
     (simp add: desk_def doc_eval)

lemma report_raw:
  "raw_text (desk answer) report_result = Some paragraph_text"
  "length (strip paragraph_text) = 68"
  by (simp_all add: raw_text_def report_result_def paragraph_text_def strip_def isspace_ascii)

lemma report_metadata:
  "extract_metadata (desk answer) report = Some (''Report'', JStr [], 0)"
  by (simp add: extract_metadata_def extract_title_def extract_author_def extract_published_def
        desk_def doc_eval report_matched report_elements_def truthy_def of_str_def Let_def)


lemma service_content: "message_content (the (service answer system user max_tokens)) = Some (strip answer)"
  by (simp add: service_def message_content_def py_get_def py_first_def py_strip_def)

lemma desk_post: "requests_post (desk answer) = service answer"
  by (simp add: desk_def doc_eval)

lemma desk_print: "print_symbols (desk answer) = Some ()"
  by (simp add: desk_def doc_eval)

lemma answers_clean:
  "strip answer49 = answer49" "strip answer50 = answer50"
  "clean_llm_artifacts answer49 = answer49" "clean_llm_artifacts answer50 = answer50"
  "re_sub tag_pattern [] answer49 no_flags = answer49"
  "re_sub tag_pattern [] answer50 no_flags = answer50"
  "re_sub whitespace_pattern '' '' answer49 no_flags = answer49"
  "re_sub whitespace_pattern '' '' answer50 no_flags = answer50"
  "length answer49 = 49" "length answer50 = 50"
  by (simp_all add: answer49_def answer50_def clean_llm_artifacts_def preambles_def
        postambles_def tags_pattern_def trailer_def lazy_dots_def apostrophe_def sub_eval)

lemma report_chunk_clean:
  "answer \<noteq> [] \<Longrightarrow> strip answer = answer
     \<Longrightarrow> clean_chunks (desk answer) [report] [] = Some [answer]"
  using service_content [of answer CLEANING_PROMPT report 4096]
  by (simp add: desk_post) (simp add: service_def)

lemma report_chunks_clean:
  "clean_chunks (desk answer49) [report] [] = Some [answer49]"
  "clean_chunks (desk answer50) [report] [] = Some [answer50]"
proof -
  have "answer49 \<noteq> []" "answer50 \<noteq> []"
    by (simp_all add: answer49_def answer50_def)
  from this(1) answers_clean(1) show "clean_chunks (desk answer49) [report] [] = Some [answer49]"
    by (rule report_chunk_clean)
  from \<open>answer50 \<noteq> []\<close> answers_clean(2)
  show "clean_chunks (desk answer50) [report] [] = Some [answer50]"
    by (rule report_chunk_clean)
qed

lemma report_clean:
  "gpt_clean (desk answer49) report = Some answer49"
  "gpt_clean (desk answer50) report = Some answer50"
  by (simp_all add: gpt_clean_def gpt_clean_body_def report_content report_preclean
        report_chunks report_chunks_clean answers_clean del: clean_chunks.simps)


definition report_post :: post where
  "report_post = \<lparr>post_blog_id = 7, post_url = ''http://s.com/a'', post_title = ''Report'',
     post_text = answer50, post_html = report, post_author = JStr [], post_tags = [],
     post_published = 0, post_summary = answer50\<rparr>"

lemma report_text:
  "clean_text (desk answer49) report = Some answer49"
  "clean_text (desk answer50) report = Some answer50"
  by (simp_all add: clean_text_def USE_LLM_CLEANING_def report_clean)

lemma report_summary: "gpt_summary (desk answer50) answer50 = Some answer50"
  using service_content [of answer50 SUMMARY_PROMPT "take 4000 answer50" 512]
  by (simp add: gpt_summary_def gpt_summary_body_def desk_post answers_clean)
     (simp add: service_def)

lemma report_fetched:
  "result_html report_result = report" "result_success report_result"
  by (simp_all add: report_result_def)

lemma report_candidate:
  "candidate (desk answer50) 7 ''http://s.com/a'' = Some (Admitted report_post)"
  by (simp add: candidate_def desk_print report_crawl report_fetched report_raw report_metadata
        report_text report_content report_summary answers_clean report_post_def)

text \<open>
  Claim C8: for every candidate article of the loop of \<open>crawl_site\<close>, a record is handed to
  persistence only if the raw fetched text and the cleaned text both have stripped length
  at least 50; a candidate whose cleaned text has length 49 is skipped and one whose
  cleaned text has length 50 is accepted. The theorem states, in this order: a candidate
  that is admitted was fetched, and its raw text and its cleaned text, which is the text
  of the record, both have stripped length at least 50; when the article is fetched, the
  raw text passes the gate, the metadata is extracted and the messages can be printed, the
  candidate is skipped when the stripped cleaned text is shorter than 50 and admitted with
  that text otherwise; a candidate whose raw text is shorter than 50 is skipped; and every
  record handed to \<open>upsert_post\<close> by the loop, and so by \<open>crawl_site\<close>, is the record of an
  admitted candidate.
\<close>

theorem admission_gate:
  "(candidate E blog_id u = Some (Admitted p) \<longrightarrow>
      (\<exists>res raw. crawl_article E u = Some (Some res) \<and> result_success res
         \<and> raw_text E res = Some raw \<and> 50 \<le> length (strip raw)
         \<and> clean_text E (result_html res) = Some (post_text p)
         \<and> 50 \<le> length (strip (post_text p))))
   \<and> (print_symbols E = Some () \<and> crawl_article E u = Some (Some res) \<and> result_success res
        \<and> raw_text E res = Some raw \<and> 50 \<le> length (strip raw)
        \<and> extract_metadata E (result_html res) = Some meta
        \<and> clean_text E (result_html res) = Some cleaned \<longrightarrow>
        (length (strip cleaned) < 50 \<longrightarrow> candidate E blog_id u = Some Rejected)
        \<and> (50 \<le> length (strip cleaned) \<longrightarrow>
             (\<exists>q. candidate E blog_id u = Some (Admitted q) \<and> post_text q = cleaned)))
   \<and> (print_symbols E = Some () \<and> crawl_article E u = Some (Some res) \<and> result_success res
        \<and> raw_text E res = Some raw \<and> length (strip raw) < 50 \<longrightarrow>
        candidate E blog_id u = Some Rejected)
   \<and> (crawl_articles E blog_id st us = Some st' \<longrightarrow>
        (\<forall>q \<in> set (handed st'). q \<in> set (handed st)
           \<or> (\<exists>v \<in> set us. candidate E blog_id v = Some (Admitted q))))
   \<and> (crawl_site E blog_id site_url = Some st'' \<longrightarrow>
        (\<forall>q \<in> set (handed st''). \<exists>v. candidate E blog_id v = Some (Admitted q)))"
proof (intro conjI impI)
  assume "candidate E blog_id u = Some (Admitted p)"
  then show "\<exists>res raw. crawl_article E u = Some (Some res) \<and> result_success res
         \<and> raw_text E res = Some raw \<and> 50 \<le> length (strip raw)
         \<and> clean_text E (result_html res) = Some (post_text p)
         \<and> 50 \<le> length (strip (post_text p))"
    by (rule candidate_admitted)
next
  assume a: "print_symbols E = Some () \<and> crawl_article E u = Some (Some res) \<and> result_success res
        \<and> raw_text E res = Some raw \<and> 50 \<le> length (strip raw)
        \<and> extract_metadata E (result_html res) = Some meta
        \<and> clean_text E (result_html res) = Some cleaned"
  from candidate_gate [of E u res raw meta cleaned blog_id] a
  have g: "(length (strip cleaned) < 50 \<longrightarrow> candidate E blog_id u = Some Rejected)
       \<and> (50 \<le> length (strip cleaned) \<longrightarrow>
            (\<exists>p. candidate E blog_id u = Some (Admitted p) \<and> post_text p = cleaned))"
    by simp
  {
    assume "length (strip cleaned) < 50"
    with g show "candidate E blog_id u = Some Rejected" by simp
  }
  {
    assume "50 \<le> length (strip cleaned)"
    with g show "\<exists>q. candidate E blog_id u = Some (Admitted q) \<and> post_text q = cleaned" by simp
  }
next
  assume "print_symbols E = Some () \<and> crawl_article E u = Some (Some res) \<and> result_success res
        \<and> raw_text E res = Some raw \<and> length (strip raw) < 50"
  then show "candidate E blog_id u = Some Rejected"
    using candidate_short_raw [of E u res raw blog_id] by simp
next
  assume "crawl_articles E blog_id st us = Some st'"
  then show "\<forall>q \<in> set (handed st'). q \<in> set (handed st)
           \<or> (\<exists>v \<in> set us. candidate E blog_id v = Some (Admitted q))"
    by (rule crawl_articles_handed)
next
  assume "crawl_site E blog_id site_url = Some st''"
  then show "\<forall>q \<in> set (handed st''). \<exists>v. candidate E blog_id v = Some (Admitted q)"
    by (rule crawl_site_handed)
qed

text \<open>
  The report is served at every URL and its raw text has 68 characters. With a service
  that answers in 49 characters the candidate is skipped, and with one that answers in 50
  characters it is admitted, with the answer as its text.
\<close>

theorem admission_gate_witness:
  "length (strip answer49) = 49 \<and> length (strip answer50) = 50
   \<and> clean_text (desk answer49) report = Some answer49
   \<and> clean_text (desk answer50) report = Some answer50
   \<and> candidate (desk answer49) 7 ''http://s.com/a'' = Some Rejected
   \<and> (\<exists>q. candidate (desk answer50) 7 ''http://s.com/a'' = Some (Admitted q)
          \<and> post_text q = answer50)
   \<and> candidate (desk answer50) 7 ''http://s.com/a'' = Some (Admitted report_post)
   \<and> (\<exists>res raw. crawl_article (desk answer50) ''http://s.com/a'' = Some (Some res)
          \<and> raw_text (desk answer50) res = Some raw \<and> 50 \<le> length (strip raw)
          \<and> 50 \<le> length (strip (post_text report_post)))"
proof -
  have h: "result_html report_result = report" "result_success report_result"
    by (simp_all add: report_result_def)
  have l: "50 \<le> length (strip paragraph_text)"
    by (simp add: report_raw)
  note gate49 = admission_gate [where E = "desk answer49" and blog_id = 7
      and u = "''http://s.com/a''" and res = report_result and raw = paragraph_text
      and meta = "(''Report'', JStr [], 0)" and cleaned = answer49,
      THEN conjunct2, THEN conjunct1]
  note gate50 = admission_gate [where E = "desk answer50" and blog_id = 7
      and u = "''http://s.com/a''" and res = report_result and raw = paragraph_text
      and meta = "(''Report'', JStr [], 0)" and cleaned = answer50 and p = report_post,
      THEN conjunct2, THEN conjunct1]
  note only50 = admission_gate [where E = "desk answer50" and blog_id = 7
      and u = "''http://s.com/a''" and p = report_post, THEN conjunct1]
  from gate49 have "candidate (desk answer49) 7 ''http://s.com/a'' = Some Rejected"
    by (simp add: desk_print report_crawl report_raw h l report_metadata report_text
          answers_clean)
  moreover from gate50
  have "\<exists>q. candidate (desk answer50) 7 ''http://s.com/a'' = Some (Admitted q)
          \<and> post_text q = answer50"
    by (simp add: desk_print report_crawl report_raw h l report_metadata report_text
          answers_clean)
  moreover from only50 report_candidate
  have "\<exists>res raw. crawl_article (desk answer50) ''http://s.com/a'' = Some (Some res)
          \<and> raw_text (desk answer50) res = Some raw \<and> 50 \<le> length (strip raw)
          \<and> 50 \<le> length (strip (post_text report_post))"
    by blast
  ultimately show ?thesis
    by (simp add: answers_clean report_text report_candidate)
qed

end
